theory Spec2Isabelle
  imports Main "HOL-Library.Word"
begin

section \<open>Strings\<close>

text \<open>
  Go strings are byte sequences; they are modelled as \<open>string\<close> (a list of
  \<open>char\<close>, one per byte).  \<open>HasPrefix\<close> and \<open>HasSuffix\<close> are the functions of
  Go's \<open>strings\<close> package that the plugin calls.
\<close>

definition HasPrefix :: "string \<Rightarrow> string \<Rightarrow> bool" where
  "HasPrefix s p = (length p \<le> length s \<and> take (length p) s = p)"

definition HasSuffix :: "string \<Rightarrow> string \<Rightarrow> bool" where
  "HasSuffix s x = (length x \<le> length s \<and> drop (length s - length x) s = x)"

section \<open>The container registry (dockerdiscovery.go)\<close>

text \<open>
  The parts of \<open>dockerapi.Container\<close> that the plugin reads.  A Go map is a
  partial function; \<open>Networks\<close> is an association list with distinct keys because
  the code takes its length.  The two address fields of a network attachment
  carry the prefix \<open>net_\<close> to keep them apart from the top-level ones of
  \<open>NetworkSettings\<close>.
\<close>

record ContainerNetwork =
  net_IPAddress :: string
  net_GlobalIPv6Address :: string
  Aliases :: "string list"

record NetworkSettings =
  IPAddress :: string
  GlobalIPv6Address :: string
  Networks :: "(string \<times> ContainerNetwork) list"

record Config =
  Labels :: "string \<rightharpoonup> string"

record HostConfig =
  NetworkMode :: string

record Container =
  ID :: string
  Name :: string
  Config :: Config
  HostConfig :: HostConfig
  NetworkSettings :: NetworkSettings

text \<open>
  \<open>net.IP\<close> is a byte slice that may be \<open>nil\<close>: an \<open>IP option\<close>, with \<open>None\<close>
  for \<open>nil\<close>.  A Go \<open>error\<close> is its message, \<open>None\<close> for \<open>nil\<close>.
\<close>

type_synonym IP = string

type_synonym error = string

record ContainerInfo =
  container :: Container
  address :: "IP option"
  address6 :: "IP option"
  domains :: "string list"
  cnameDomains :: "string list"

type_synonym ContainerInfoMap = "string \<rightharpoonup> ContainerInfo"

text \<open>
  \<open>ContainerDomainResolver\<close> is an interface with the one method \<open>resolve\<close>; a
  value of it is that method.
\<close>

type_synonym ContainerDomainResolver = "Container \<Rightarrow> string list \<times> error option"

text \<open>
  The fields of \<open>DockerDiscovery\<close> that the registry and the answer engine
  use.  \<open>dockerClient\<close> stands for
  \<open>dockerClient.InspectContainerWithOptions\<close>, the only call made on it by the
  modelled functions; \<open>cloudflareSyncer\<close> records whether a syncer is set.
\<close>

record DockerDiscovery =
  resolvers :: "ContainerDomainResolver list"
  dockerClient :: "string \<Rightarrow> error + Container"
  containerInfoMap :: ContainerInfoMap
  ttl :: "32 word"
  traefikResolver :: "ContainerDomainResolver option"
  traefikCNAME :: string
  traefikA :: "IP option"
  cloudflareSyncer :: bool

text \<open>
  \<open>resolveDomainsByContainer\<close>: every resolver runs, an error is logged and the
  domains it returned are appended all the same.
\<close>

fun resolve_all :: "ContainerDomainResolver list \<Rightarrow> Container \<Rightarrow> string list \<Rightarrow> string list" where
  "resolve_all [] c ds = ds"
| "resolve_all (resolver # rs) c ds = resolve_all rs c (ds @ fst (resolver c))"

definition resolveDomainsByContainer ::
  "DockerDiscovery \<Rightarrow> Container \<Rightarrow> string list \<times> string list \<times> error option" where
  "resolveDomainsByContainer dd c =
     (let ds = resolve_all (resolvers dd) c [];
          cnames = (case traefikResolver dd of
                      None \<Rightarrow> []
                    | Some resolver \<Rightarrow> [] @ fst (resolver c))
      in (ds, cnames, None))"

record DomainLookupResult =
  containerInfo :: ContainerInfo
  isCNAME :: bool

text \<open>
  \<open>containerInfoByDomain\<close> ranges over a Go map, whose iteration order is
  not specified.  The order that one run of the loop takes is the parameter
  \<open>order\<close>: a list of the keys of the map.  Inside one entry the plain domains
  are compared first and the CNAME domains second; \<open>fmt.Sprintf("%s.", d)\<close> is
  \<open>d @ ''.''\<close>.
\<close>

fun scan_domains :: "string list \<Rightarrow> string \<Rightarrow> bool" where
  "scan_domains [] requestName = False"
| "scan_domains (d # ds) requestName =
     (if d @ ''.'' = requestName then True else scan_domains ds requestName)"

fun scan_entries :: "ContainerInfoMap \<Rightarrow> string list \<Rightarrow> string \<Rightarrow> DomainLookupResult option" where
  "scan_entries m [] requestName = None"
| "scan_entries m (k # ks) requestName =
     (case m k of
        None \<Rightarrow> scan_entries m ks requestName
      | Some ci \<Rightarrow>
          if scan_domains (domains ci) requestName
          then Some \<lparr>containerInfo = ci, isCNAME = False\<rparr>
          else if scan_domains (cnameDomains ci) requestName
          then Some \<lparr>containerInfo = ci, isCNAME = True\<rparr>
          else scan_entries m ks requestName)"

definition containerInfoByDomain ::
  "DockerDiscovery \<Rightarrow> string list \<Rightarrow> string \<Rightarrow> DomainLookupResult option" where
  "containerInfoByDomain dd order requestName =
     scan_entries (containerInfoMap dd) order requestName"

text \<open>An iteration order of a map lists each of its keys once.\<close>

definition iteration_order :: "ContainerInfoMap \<Rightarrow> string list \<Rightarrow> bool" where
  "iteration_order m order = (distinct order \<and> set order = dom m)"

section \<open>The answer engine (ServeDNS)\<close>

text \<open>
  A resource record is its header name, its TTL and its data; the class is
  always INET.  The address of an A or AAAA record is the \<open>net.IP\<close> handed to
  \<open>getAnswer\<close>, which may be \<open>nil\<close>.
\<close>

datatype RR =
  A_RR string "32 word" "IP option"
| AAAA_RR string "32 word" "IP option"
| CNAME_RR string "32 word" string

definition getCNAMEAnswer :: "string \<Rightarrow> string \<Rightarrow> 32 word \<Rightarrow> RR list" where
  "getCNAMEAnswer zone target t =
     (let target' = (if \<not> HasSuffix target ''.'' then target @ ''.'' else target)
      in [CNAME_RR zone t target'])"

fun getAnswer :: "string \<Rightarrow> IP option list \<Rightarrow> 32 word \<Rightarrow> bool \<Rightarrow> RR list" where
  "getAnswer zone [] t v6 = []"
| "getAnswer zone (ip # ips) t v6 =
     (if \<not> v6 then A_RR zone t ip # getAnswer zone ips t v6
      else AAAA_RR zone t ip # getAnswer zone ips t v6)"

text \<open>
  The query as \<open>request.Request\<close> presents it: \<open>QType\<close>, \<open>QName\<close> (the question
  name as sent) and \<open>Name\<close> (the question name in lower case, the field
  \<open>ReqName\<close> here).  The values of the \<open>dns\<close> package's constants are those
  of the DNS protocol.
\<close>

record Request =
  QType :: "16 word"
  QName :: string
  ReqName :: string

definition TypeA :: "16 word" where "TypeA = 1"
definition TypeCNAME :: "16 word" where "TypeCNAME = 5"
definition TypeAAAA :: "16 word" where "TypeAAAA = 28"

definition RcodeSuccess :: int where "RcodeSuccess = 0"
definition RcodeNameError :: int where "RcodeNameError = 3"

text \<open>
  The fields of \<open>dns.Msg\<close> that \<open>ServeDNS\<close> sets.  \<open>SetReply\<close> is the library's:
  on a fresh message it marks the message as a response with rcode
  \<open>RcodeSuccess\<close> and leaves the other flags and the answer section at their
  zero values.
\<close>

record Msg =
  Response :: bool
  Authoritative :: bool
  RecursionAvailable :: bool
  Compress :: bool
  Rcode :: int
  Answer :: "RR list"

definition SetReply :: Msg where
  "SetReply = \<lparr>Response = True, Authoritative = False, RecursionAvailable = False,
               Compress = False, Rcode = RcodeSuccess, Answer = []\<rparr>"

text \<open>
  Before it writes a message, \<open>ServeDNS\<close> passes it through \<open>state.SizeAndDo\<close> and
  \<open>state.Scrub\<close> of the \<open>request\<close> package.  \<open>SizeAndDo\<close> touches the additional
  section only, which is not a field here.  \<open>Scrub\<close> calls \<open>dns.Msg.Truncate\<close> with
  the buffer size of the query, which is 512 bytes or more.  A message of
  \<open>ServeDNS\<close> carries the question and at most one answer record.  When it fits
  the buffer without name compression, \<open>Truncate\<close> clears \<open>Compress\<close> and leaves the
  rest of the message as it is: this is \<open>Scrub\<close> below.  It covers every reply
  without an answer record, and every reply with one record when the question
  name and the target of a CNAME record have at most 150 bytes each, as all
  names of the repository's tests have.  Longer names, for which \<open>Truncate\<close>
  may turn compression on or cut the answer section, are outside this model.
\<close>

definition Scrub :: "Msg \<Rightarrow> Msg" where
  "Scrub m = m\<lparr>Compress := False\<rparr>"

text \<open>
  What a call of \<open>ServeDNS\<close> does: it hands the query to the next handler
  (\<open>plugin.NextOrFailure\<close>), or it writes a message and returns a code.
\<close>

datatype Served = NextOrFailure | Wrote Msg int

definition ServeDNS :: "DockerDiscovery \<Rightarrow> string list \<Rightarrow> Request \<Rightarrow> Served" where
  "ServeDNS dd order r =
     (let result = containerInfoByDomain dd order (QName r);
          sw =
            (if QType r = TypeA then
               (case result of
                  Some res \<Rightarrow>
                    if isCNAME res then
                      (if traefikCNAME dd \<noteq> [] then
                         Inl (getCNAMEAnswer (ReqName r) (traefikCNAME dd) (ttl dd))
                       else if traefikA dd \<noteq> None then
                         Inl (getAnswer (ReqName r) [traefikA dd] (ttl dd) False)
                       else Inl [])
                    else Inl (getAnswer (ReqName r) [address (containerInfo res)] (ttl dd) False)
                | None \<Rightarrow> Inl [])
             else if QType r = TypeAAAA then
               (case result of
                  Some res \<Rightarrow>
                    if isCNAME res then
                      (if traefikCNAME dd \<noteq> [] then
                         Inl (getCNAMEAnswer (ReqName r) (traefikCNAME dd) (ttl dd))
                       else Inl [])
                    else if address6 (containerInfo res) \<noteq> None then
                      Inl (getAnswer (ReqName r) [address6 (containerInfo res)] (ttl dd) True)
                    else if address (containerInfo res) \<noteq> None then
                      Inr (Wrote (Scrub (SetReply\<lparr>Authoritative := True,
                                                   RecursionAvailable := False\<rparr>))
                             RcodeSuccess)
                    else Inl []
                | None \<Rightarrow> Inl [])
             else if QType r = TypeCNAME then
               (case result of
                  Some res \<Rightarrow>
                    if isCNAME res \<and> traefikCNAME dd \<noteq> [] then
                      Inl (getCNAMEAnswer (ReqName r) (traefikCNAME dd) (ttl dd))
                    else Inl []
                | None \<Rightarrow> Inl [])
             else Inl [])
      in case sw of
           Inr early \<Rightarrow> early
         | Inl answers \<Rightarrow>
             if length answers = 0 then NextOrFailure
             else Wrote (Scrub (SetReply\<lparr>Authoritative := True, RecursionAvailable := False,
                                          Compress := True, Answer := answers\<rparr>))
                        RcodeSuccess)"

section \<open>Address resolution and the registry upsert\<close>

text \<open>
  \<open>getContainerAddress\<close> follows \<open>container:\<close> network modes from one container
  to the next in a loop that has no bound: a chain of inspected containers that
  never ends keeps it running.  The loop is a partial function, \<open>None\<close> when it
  does not return.  It leaves by a \<open>return\<close> (\<open>Returned\<close>) or by \<open>break\<close>, with
  the container and network mode it reached (\<open>Broke\<close>).  \<open>net.ParseIP\<close> is
  the parameter \<open>ParseIP\<close>.  Log statements are not modelled; container IDs are
  the 64-character identifiers of the Docker API, so the \<open>ID[:12]\<close> in their
  arguments is in range.
\<close>

datatype LoopExit = Returned "IP option" "error option" | Broke Container string

partial_function (option) address_loop ::
  "(string \<Rightarrow> IP option) \<Rightarrow> (string \<Rightarrow> error + Container) \<Rightarrow> bool \<Rightarrow> bool \<Rightarrow> Container
     \<Rightarrow> LoopExit option" where
  "address_loop ParseIP inspect hasNetName v6 c =
     (if IPAddress (NetworkSettings c) \<noteq> [] \<and> \<not> hasNetName \<and> \<not> v6 then
        Some (Returned (ParseIP (IPAddress (NetworkSettings c))) None)
      else if GlobalIPv6Address (NetworkSettings c) \<noteq> [] \<and> \<not> hasNetName \<and> v6 then
        Some (Returned (ParseIP (GlobalIPv6Address (NetworkSettings c))) None)
      else if NetworkMode (HostConfig c) = ''host'' then
        Some (Returned None None)
      else if HasPrefix (NetworkMode (HostConfig c)) ''container:'' then
        (case inspect (drop (length ''container:'') (NetworkMode (HostConfig c))) of
           Inl err \<Rightarrow> Some (Returned None (Some err))
         | Inr other \<Rightarrow> address_loop ParseIP inspect hasNetName v6 other)
      else Some (Broke c (NetworkMode (HostConfig c))))"

definition getContainerAddress ::
  "(string \<Rightarrow> IP option) \<Rightarrow> DockerDiscovery \<Rightarrow> Container \<Rightarrow> bool
     \<Rightarrow> (IP option \<times> error option) option" where
  "getContainerAddress ParseIP dd c0 v6 =
     (let label = Labels (Config c0) ''coredns.dockerdiscovery.network'';
          hasNetName = (label \<noteq> None)
      in case address_loop ParseIP (dockerClient dd) hasNetName v6 c0 of
           None \<Rightarrow> None
         | Some (Returned ip err) \<Rightarrow> Some (ip, err)
         | Some (Broke c networkMode) \<Rightarrow>
             (let found =
                    (case label of
                       Some netName \<Rightarrow> map_of (Networks (NetworkSettings c)) netName
                     | None \<Rightarrow>
                         if length (Networks (NetworkSettings c)) = 1
                         then Some (snd (hd (Networks (NetworkSettings c))))
                         else None)
              in case found of
                   None \<Rightarrow>
                     Some (None, Some (''unable to find network settings for the network ''
                                        @ networkMode))
                 | Some network \<Rightarrow>
                     if \<not> v6 then Some (ParseIP (net_IPAddress network), None)
                     else if v6 \<and> length (net_GlobalIPv6Address network) > 0 then
                       Some (ParseIP (net_GlobalIPv6Address network), None)
                     else Some (None, None)))"

text \<open>
  \<open>updateContainerInfo\<close> returns the new registry and what it hands to the
  background: the domains of the \<open>go cloudflareSyncer.SyncDomains(...)\<close> it
  starts, if any.  The result is \<open>None\<close> when address resolution does not
  return.  The IPv6 address is resolved only when the IPv4 address is not \<open>nil\<close>,
  and its error is discarded.
\<close>

definition updateContainerInfo ::
  "(string \<Rightarrow> IP option) \<Rightarrow> DockerDiscovery \<Rightarrow> Container
     \<Rightarrow> (DockerDiscovery \<times> string list option) option" where
  "updateContainerInfo ParseIP dd c =
     (let isExist = (containerInfoMap dd (ID c) \<noteq> None);
          m = (if isExist then (containerInfoMap dd)(ID c := None) else containerInfoMap dd);
          resolved = resolveDomainsByContainer dd c;
          ds = fst resolved;
          cnames = fst (snd resolved)
      in case getContainerAddress ParseIP dd c False of
           None \<Rightarrow> None
         | Some (containerAddress, err) \<Rightarrow>
             (case (if containerAddress \<noteq> None
                    then map_option fst (getContainerAddress ParseIP dd c True)
                    else Some None) of
                None \<Rightarrow> None
              | Some containerAddress6 \<Rightarrow>
                  (let ds' = (if containerAddress = None \<and> length ds > 0 then [] else ds)
                   in if length ds' > 0 \<or> length cnames > 0 then
                        Some (dd\<lparr>containerInfoMap :=
                                   m(ID c \<mapsto> \<lparr>container = c, address = containerAddress,
                                              address6 = containerAddress6, domains = ds',
                                              cnameDomains = cnames\<rparr>)\<rparr>,
                              if cloudflareSyncer dd \<and> length cnames > 0 then Some cnames
                              else None)
                      else Some (dd\<lparr>containerInfoMap := m\<rparr>, None))))"

text \<open>
  \<open>removeContainerInfo\<close> returns the new registry and the domains of the
  \<open>go cloudflareSyncer.RemoveDomains(...)\<close> it starts, if any.
\<close>

definition removeContainerInfo ::
  "DockerDiscovery \<Rightarrow> string \<Rightarrow> DockerDiscovery \<times> string list option" where
  "removeContainerInfo dd containerID =
     (case containerInfoMap dd containerID of
        None \<Rightarrow> (dd, None)
      | Some ci \<Rightarrow>
          (dd\<lparr>containerInfoMap := (containerInfoMap dd)(containerID := None)\<rparr>,
           if cloudflareSyncer dd \<and> length (cnameDomains ci) > 0 then Some (cnameDomains ci)
           else None))"

text \<open>
  The name resolver of \<open>resolvers.go\<close> that builds \<open>{container-name}.{domain}\<close>;
  \<open>strings.TrimLeft(name, "/")\<close> drops the leading slashes.
\<close>

definition normalizeContainerName :: "Container \<Rightarrow> string" where
  "normalizeContainerName c = dropWhile (\<lambda>x. x = CHR ''/'') (Name c)"

definition SubDomainContainerNameResolver :: "string \<Rightarrow> ContainerDomainResolver" where
  "SubDomainContainerNameResolver domain c =
     ([] @ [normalizeContainerName c @ ''.'' @ domain], None)"

text \<open>The registry invariant on the two addresses of an entry.\<close>

definition v6_needs_v4 :: "ContainerInfoMap \<Rightarrow> bool" where
  "v6_needs_v4 m = (\<forall>ci \<in> ran m. address6 ci \<noteq> None \<longrightarrow> address ci \<noteq> None)"

fun is_AAAA :: "RR \<Rightarrow> bool" where
  "is_AAAA (AAAA_RR n t ip) = True"
| "is_AAAA (A_RR n t ip) = False"
| "is_AAAA (CNAME_RR n t target) = False"

fun is_A :: "RR \<Rightarrow> bool" where
  "is_A (A_RR n t ip) = True"
| "is_A (AAAA_RR n t ip) = False"
| "is_A (CNAME_RR n t target) = False"

fun is_CNAME :: "RR \<Rightarrow> bool" where
  "is_CNAME (CNAME_RR n t target) = True"
| "is_CNAME (A_RR n t ip) = False"
| "is_CNAME (AAAA_RR n t ip) = False"

section \<open>The registry of the test TestCnamePriorityOverARecord\<close>

text \<open>
  The two containers of the repository's test \<open>TestCnamePriorityOverARecord\<close>
  and the registry entries that \<open>updateContainerInfo\<close> stores for them under
  the test's configuration (\<open>domain 177cpt.com\<close>, \<open>network_aliases proxy\<close>,
  \<open>traefik_cname infravm.177cpt.com\<close>): the container named \<open>traefik\<close> has
  the plain domain \<open>traefik.177cpt.com\<close>, and the container \<open>whoami\<close> has the same
  name as a CNAME domain from its router rule.  \<open>both_dd\<close> is the registry of one
  container that carries the name on both lists (a container named \<open>traefik\<close>
  with the router rule itself).
\<close>

definition traefikContainer :: Container where
  "traefikContainer =
     \<lparr>ID = ''aa155d6fd141e29256c286070d2d44b3f45f1e46822578f1e7d66c1e7981e6c7'',
      Name = ''traefik'',
      Config = \<lparr>Labels = [''coredns.dockerdiscovery.host'' \<mapsto> '''']\<rparr>,
      HostConfig = \<lparr>NetworkMode = ''proxy''\<rparr>,
      NetworkSettings = \<lparr>IPAddress = '''', GlobalIPv6Address = '''',
        Networks = [(''proxy'', \<lparr>net_IPAddress = ''172.18.0.5'',
                                 net_GlobalIPv6Address = '''', Aliases = []\<rparr>)]\<rparr>\<rparr>"

definition whoamiContainer :: Container where
  "whoamiContainer =
     \<lparr>ID = ''bb255d6fd141e29256c286070d2d44b3f45f1e46822578f1e7d66c1e7981e6c7'',
      Name = ''whoami'',
      Config = \<lparr>Labels = [''traefik.enable'' \<mapsto> ''true'',
                          ''traefik.http.routers.dash.rule'' \<mapsto> ''Host(`traefik.177cpt.com`)'',
                          ''coredns.dockerdiscovery.host'' \<mapsto> '''']\<rparr>,
      HostConfig = \<lparr>NetworkMode = ''proxy''\<rparr>,
      NetworkSettings = \<lparr>IPAddress = '''', GlobalIPv6Address = '''',
        Networks = [(''proxy'', \<lparr>net_IPAddress = ''172.18.0.10'',
                                 net_GlobalIPv6Address = '''', Aliases = []\<rparr>)]\<rparr>\<rparr>"

definition traefikInfo :: ContainerInfo where
  "traefikInfo = \<lparr>container = traefikContainer, address = Some ''172.18.0.5'', address6 = None,
                   domains = ['''', ''traefik.177cpt.com''], cnameDomains = []\<rparr>"

definition whoamiInfo :: ContainerInfo where
  "whoamiInfo = \<lparr>container = whoamiContainer, address = Some ''172.18.0.10'', address6 = None,
                  domains = ['''', ''whoami.177cpt.com''],
                  cnameDomains = [''traefik.177cpt.com'']\<rparr>"

definition priority_dd :: DockerDiscovery where
  "priority_dd =
     \<lparr>resolvers = [], dockerClient = (\<lambda>i. Inl ''no such container''),
      containerInfoMap = [ID traefikContainer \<mapsto> traefikInfo, ID whoamiContainer \<mapsto> whoamiInfo],
      ttl = 3600, traefikResolver = None, traefikCNAME = ''infravm.177cpt.com'',
      traefikA = None, cloudflareSyncer = False\<rparr>"

definition priority_order :: "string list" where
  "priority_order = [ID traefikContainer, ID whoamiContainer]"

definition both_dd :: DockerDiscovery where
  "both_dd =
     priority_dd\<lparr>containerInfoMap :=
        [ID traefikContainer \<mapsto> traefikInfo\<lparr>cnameDomains := [''traefik.177cpt.com'']\<rparr>]\<rparr>"

section \<open>A container that has only an IPv6 address\<close>

text \<open>
  A container on one network that gave it an IPv6 address and no IPv4 address;
  its registry has a name resolver for \<open>docker.loc\<close> and a router-rule resolver
  that finds the host \<open>app.homelab.net\<close>.  \<open>ParseIP_nonempty\<close> stands for
  \<open>net.ParseIP\<close> on the two address strings used here: \<open>nil\<close> for the empty
  string, the address otherwise.
\<close>

definition ParseIP_nonempty :: "string \<Rightarrow> IP option" where
  "ParseIP_nonempty s = (if s = [] then None else Some s)"

definition v6onlyContainer :: Container where
  "v6onlyContainer =
     \<lparr>ID = ''cc355d6fd141e29256c286070d2d44b3f45f1e46822578f1e7d66c1e7981e6c7'',
      Name = ''/app'',
      Config = \<lparr>Labels = [''traefik.http.routers.app.rule'' \<mapsto> ''Host(`app.homelab.net`)'']\<rparr>,
      HostConfig = \<lparr>NetworkMode = ''net6''\<rparr>,
      NetworkSettings = \<lparr>IPAddress = '''', GlobalIPv6Address = ''fd00::5'',
        Networks = [(''net6'', \<lparr>net_IPAddress = '''',
                                net_GlobalIPv6Address = ''fd00::5'', Aliases = []\<rparr>)]\<rparr>\<rparr>"

definition v6only_dd :: DockerDiscovery where
  "v6only_dd =
     \<lparr>resolvers = [SubDomainContainerNameResolver ''docker.loc''],
      dockerClient = (\<lambda>i. Inl ''no such container''),
      containerInfoMap =
        [ID v6onlyContainer \<mapsto> \<lparr>container = v6onlyContainer, address = Some ''172.18.0.7'',
                                  address6 = None, domains = [''app.docker.loc''],
                                  cnameDomains = []\<rparr>],
      ttl = 3600,
      traefikResolver = Some (\<lambda>c. ([''app.homelab.net''], None)),
      traefikCNAME = ''traefik.homelab.net'', traefikA = None, cloudflareSyncer = True\<rparr>"

text \<open>
  The same container on a network that gave it both addresses.
\<close>

definition dualStackContainer :: Container where
  "dualStackContainer =
     v6onlyContainer\<lparr>NetworkSettings :=
       \<lparr>IPAddress = '''', GlobalIPv6Address = ''fd00::5'',
        Networks = [(''net6'', \<lparr>net_IPAddress = ''172.18.0.7'',
                                net_GlobalIPv6Address = ''fd00::5'', Aliases = []\<rparr>)]\<rparr>\<rparr>"

section \<open>Cloudflare DNS synchronisation (cloudflare.go)\<close>

record CloudflareZone =
  ZoneDomain :: string
  ZoneID :: string

text \<open>
  \<open>ExcludeDomains\<close> is a \<open>map[string]bool\<close>; reading a missing key gives
  \<open>false\<close>, so the map is a total function.  The credentials are not part of the
  model.
\<close>

record CloudflareConfig =
  TargetDomain :: string
  Proxied :: bool
  ExcludeDomains :: "string \<Rightarrow> bool"
  Zones :: "CloudflareZone list"

text \<open>
  The fields of \<open>cloudflare.DNSRecord\<close> that the syncers set or read, with the
  prefix \<open>rec_\<close>.  \<open>Proxied\<close> is a pointer to a \<open>bool\<close>.
\<close>

record DNSRecord =
  rec_ID :: string
  rec_Type :: string
  rec_Name :: string
  rec_Content :: string
  rec_Proxied :: "bool option"
  rec_TTL :: int

record UnvalidatedIngressRule =
  Hostname :: string
  Path :: string
  Service :: string

text \<open>
  The warp-routing and origin-request parts of a tunnel configuration are
  copied from the fetched configuration to the pushed one and never inspected;
  they are opaque values.  The result and parameter wrappers of the two tunnel
  calls carry the tunnel ID beside the configuration; the model passes the
  configuration itself.
\<close>

type_synonym WarpRoutingConfig = string

type_synonym OriginRequestConfig = string

record TunnelConfiguration =
  Ingress :: "UnvalidatedIngressRule list"
  WarpRouting :: WarpRoutingConfig
  OriginRequest :: OriginRequestConfig

text \<open>
  \<open>CloudflareAPI\<close> is an interface; a value of it is its six methods, each a
  function on the state \<open>'s\<close> of the remote provider.
\<close>

record 's CloudflareAPI =
  ListDNSRecords :: "string \<Rightarrow> DNSRecord \<Rightarrow> 's \<Rightarrow> (error + DNSRecord list) \<times> 's"
  CreateDNSRecord :: "string \<Rightarrow> DNSRecord \<Rightarrow> 's \<Rightarrow> (error + DNSRecord) \<times> 's"
  UpdateDNSRecord :: "string \<Rightarrow> string \<Rightarrow> DNSRecord \<Rightarrow> 's \<Rightarrow> error option \<times> 's"
  DeleteDNSRecord :: "string \<Rightarrow> string \<Rightarrow> 's \<Rightarrow> error option \<times> 's"
  GetTunnelConfiguration ::
    "string \<Rightarrow> string \<Rightarrow> 's \<Rightarrow> (error + TunnelConfiguration) \<times> 's"
  UpdateTunnelConfiguration ::
    "string \<Rightarrow> string \<Rightarrow> TunnelConfiguration \<Rightarrow> 's \<Rightarrow> (error + TunnelConfiguration) \<times> 's"

text \<open>
  Every call that a syncer makes on the interface is recorded, with its
  arguments, in the order of the calls.  A syncer runs on a pair of the
  provider's state and the calls made so far.
\<close>

datatype APICall =
  ListCall string DNSRecord
| CreateCall string DNSRecord
| UpdateCall string string DNSRecord
| DeleteCall string string
| GetTunnelCall string string
| PutTunnelCall string string TunnelConfiguration

type_synonym 's World = "'s \<times> APICall list"

definition invoke :: "('s \<Rightarrow> 'r \<times> 's) \<Rightarrow> APICall \<Rightarrow> 's World \<Rightarrow> 'r \<times> 's World" where
  "invoke method call w = (case method (fst w) of (r, s') \<Rightarrow> (r, (s', snd w @ [call])))"

text \<open>
  \<open>CloudflareSyncer.findZoneForDomain\<close>: the loop keeps the longest matching
  zone domain seen so far and its zone ID, both empty at the start.
\<close>

fun findZone_loop :: "CloudflareZone list \<Rightarrow> string \<Rightarrow> string \<Rightarrow> string \<Rightarrow> string" where
  "findZone_loop [] domain bestMatch bestZoneID = bestZoneID"
| "findZone_loop (zone # zs) domain bestMatch bestZoneID =
     (if domain = ZoneDomain zone \<or> HasSuffix domain (''.'' @ ZoneDomain zone) then
        (if length (ZoneDomain zone) > length bestMatch
         then findZone_loop zs domain (ZoneDomain zone) (ZoneID zone)
         else findZone_loop zs domain bestMatch bestZoneID)
      else findZone_loop zs domain bestMatch bestZoneID)"

definition findZoneForDomain :: "CloudflareConfig \<Rightarrow> string \<Rightarrow> string" where
  "findZoneForDomain cfg domain = findZone_loop (Zones cfg) domain [] []"

text \<open>
  \<open>TunnelSyncer.findZoneForDomain\<close> writes the suffix test with indices: the
  domain is longer than the zone domain, the byte before the last
  \<open>len(zone.Domain)\<close> bytes is a dot, and those bytes are the zone domain.
\<close>

fun tunnel_findZone_loop ::
  "CloudflareZone list \<Rightarrow> string \<Rightarrow> string \<Rightarrow> string \<Rightarrow> string" where
  "tunnel_findZone_loop [] domain bestMatch bestZoneID = bestZoneID"
| "tunnel_findZone_loop (zone # zs) domain bestMatch bestZoneID =
     (if domain = ZoneDomain zone
         \<or> (length domain > length (ZoneDomain zone)
            \<and> domain ! (length domain - length (ZoneDomain zone) - 1) = CHR ''.''
            \<and> drop (length domain - length (ZoneDomain zone)) domain = ZoneDomain zone) then
        (if length (ZoneDomain zone) > length bestMatch
         then tunnel_findZone_loop zs domain (ZoneDomain zone) (ZoneID zone)
         else tunnel_findZone_loop zs domain bestMatch bestZoneID)
      else tunnel_findZone_loop zs domain bestMatch bestZoneID)"

definition tunnel_findZoneForDomain :: "CloudflareConfig \<Rightarrow> string \<Rightarrow> string" where
  "tunnel_findZoneForDomain cfg domain = tunnel_findZone_loop (Zones cfg) domain [] []"

text \<open>
  The filter of a listing (type CNAME and the literal name) and the record
  that is created or written over an existing one.
\<close>

definition cname_filter :: "string \<Rightarrow> DNSRecord" where
  "cname_filter domain =
     \<lparr>rec_ID = [], rec_Type = ''CNAME'', rec_Name = domain, rec_Content = [],
      rec_Proxied = None, rec_TTL = 0\<rparr>"

definition cname_record :: "CloudflareConfig \<Rightarrow> string \<Rightarrow> string \<Rightarrow> DNSRecord" where
  "cname_record cfg domain target =
     \<lparr>rec_ID = [], rec_Type = ''CNAME'', rec_Name = domain, rec_Content = target,
      rec_Proxied = Some (Proxied cfg), rec_TTL = 1\<rparr>"

definition upsertRecord ::
  "'s CloudflareAPI \<Rightarrow> CloudflareConfig \<Rightarrow> string \<Rightarrow> string \<Rightarrow> 's World
     \<Rightarrow> error option \<times> 's World" where
  "upsertRecord api cfg zoneID domain w =
     (case invoke (ListDNSRecords api zoneID (cname_filter domain))
                  (ListCall zoneID (cname_filter domain)) w of
        (Inl err, w1) \<Rightarrow> (Some (''listing records for '' @ domain @ '': '' @ err), w1)
      | (Inr existing, w1) \<Rightarrow>
          (let record = cname_record cfg domain (TargetDomain cfg)
           in if length existing > 0 then
                (let rec = hd existing
                 in if rec_Content rec = TargetDomain cfg then (None, w1)
                    else invoke (UpdateDNSRecord api zoneID (rec_ID rec) record)
                                (UpdateCall zoneID (rec_ID rec) record) w1)
              else
                (case invoke (CreateDNSRecord api zoneID record)
                             (CreateCall zoneID record) w1 of
                   (Inl err, w2) \<Rightarrow> (Some err, w2)
                 | (Inr created, w2) \<Rightarrow> (None, w2))))"

fun delete_each ::
  "'s CloudflareAPI \<Rightarrow> string \<Rightarrow> DNSRecord list \<Rightarrow> 's World \<Rightarrow> error option \<times> 's World" where
  "delete_each api zoneID [] w = (None, w)"
| "delete_each api zoneID (rec # recs) w =
     (case invoke (DeleteDNSRecord api zoneID (rec_ID rec)) (DeleteCall zoneID (rec_ID rec)) w of
        (Some err, w1) \<Rightarrow> (Some (''deleting record '' @ rec_ID rec @ '': '' @ err), w1)
      | (None, w1) \<Rightarrow> delete_each api zoneID recs w1)"

definition deleteRecord ::
  "'s CloudflareAPI \<Rightarrow> string \<Rightarrow> string \<Rightarrow> 's World \<Rightarrow> error option \<times> 's World" where
  "deleteRecord api zoneID domain w =
     (case invoke (ListDNSRecords api zoneID (cname_filter domain))
                  (ListCall zoneID (cname_filter domain)) w of
        (Inl err, w1) \<Rightarrow> (Some (''listing records for '' @ domain @ '': '' @ err), w1)
      | (Inr existing, w1) \<Rightarrow> delete_each api zoneID existing w1)"

text \<open>
  \<open>SyncDomains\<close> and \<open>RemoveDomains\<close>: an excluded domain and a domain with no
  zone are skipped; an error of one domain is logged and the loop goes on.
\<close>

fun SyncDomains :: "'s CloudflareAPI \<Rightarrow> CloudflareConfig \<Rightarrow> string list \<Rightarrow> 's World \<Rightarrow> 's World" where
  "SyncDomains api cfg [] w = w"
| "SyncDomains api cfg (domain # ds) w =
     (if ExcludeDomains cfg domain then SyncDomains api cfg ds w
      else (let zoneID = findZoneForDomain cfg domain
            in if zoneID = [] then SyncDomains api cfg ds w
               else SyncDomains api cfg ds (snd (upsertRecord api cfg zoneID domain w))))"

fun RemoveDomains :: "'s CloudflareAPI \<Rightarrow> CloudflareConfig \<Rightarrow> string list \<Rightarrow> 's World \<Rightarrow> 's World" where
  "RemoveDomains api cfg [] w = w"
| "RemoveDomains api cfg (domain # ds) w =
     (if ExcludeDomains cfg domain then RemoveDomains api cfg ds w
      else (let zoneID = findZoneForDomain cfg domain
            in if zoneID = [] then RemoveDomains api cfg ds w
               else RemoveDomains api cfg ds (snd (deleteRecord api zoneID domain w))))"

section \<open>Cloudflare Tunnel routes (tunnel.go)\<close>

record TunnelConfig =
  TunnelID :: string
  AccountID :: string

text \<open>
  The inner loop of \<open>AddRoutes\<close> looks for the first rule with the hostname.
  It returns the list, whether such a rule exists, and whether its service was
  written over.
\<close>

fun update_existing ::
  "UnvalidatedIngressRule list \<Rightarrow> string \<Rightarrow> string
     \<Rightarrow> UnvalidatedIngressRule list \<times> bool \<times> bool" where
  "update_existing [] hostname serviceURL = ([], False, False)"
| "update_existing (rule # rules) hostname serviceURL =
     (if Hostname rule = hostname then
        (if Service rule = serviceURL then (rule # rules, True, False)
         else (rule\<lparr>Service := serviceURL\<rparr> # rules, True, True))
      else (case update_existing rules hostname serviceURL of
              (rules', exists, changed) \<Rightarrow> (rule # rules', exists, changed)))"

definition catch_all :: UnvalidatedIngressRule where
  "catch_all = \<lparr>Hostname = [], Path = [], Service = ''http_status:404''\<rparr>"

text \<open>
  The outer loop of \<open>AddRoutes\<close> over the hostnames, on the ingress list and the
  flag \<open>modified\<close>.  A new rule goes before the last rule of the list; on an
  empty list the new rule and a catch-all rule are appended.
\<close>

fun add_rules ::
  "CloudflareConfig \<Rightarrow> string list \<Rightarrow> string \<Rightarrow> UnvalidatedIngressRule list \<Rightarrow> bool
     \<Rightarrow> UnvalidatedIngressRule list \<times> bool" where
  "add_rules cf [] serviceURL ingress modified = (ingress, modified)"
| "add_rules cf (hostname # hs) serviceURL ingress modified =
     (if ExcludeDomains cf hostname then add_rules cf hs serviceURL ingress modified
      else (case update_existing ingress hostname serviceURL of
              (ingress1, exists, changed) \<Rightarrow>
                if \<not> exists then
                  (let newRule = \<lparr>Hostname = hostname, Path = [], Service = serviceURL\<rparr>
                   in if length ingress1 > 0 then
                        add_rules cf hs serviceURL
                          (butlast ingress1 @ [newRule, last ingress1]) True
                      else add_rules cf hs serviceURL (ingress1 @ [newRule, catch_all]) True)
                else add_rules cf hs serviceURL ingress1 (modified \<or> changed)))"

definition upsertTunnelDNS ::
  "'s CloudflareAPI \<Rightarrow> CloudflareConfig \<Rightarrow> string \<Rightarrow> string \<Rightarrow> 's World \<Rightarrow> 's World" where
  "upsertTunnelDNS api cf hostname cnameTarget w =
     (let zoneID = tunnel_findZoneForDomain cf hostname
      in if zoneID = [] then w
         else (case invoke (ListDNSRecords api zoneID (cname_filter hostname))
                           (ListCall zoneID (cname_filter hostname)) w of
                 (Inl err, w1) \<Rightarrow> w1
               | (Inr existing, w1) \<Rightarrow>
                   (let record = cname_record cf hostname cnameTarget
                    in if length existing > 0 then
                         (if rec_Content (hd existing) = cnameTarget then w1
                          else snd (invoke (UpdateDNSRecord api zoneID (rec_ID (hd existing)) record)
                                           (UpdateCall zoneID (rec_ID (hd existing)) record) w1))
                       else snd (invoke (CreateDNSRecord api zoneID record)
                                        (CreateCall zoneID record) w1))))"

fun delete_each_logged ::
  "'s CloudflareAPI \<Rightarrow> string \<Rightarrow> DNSRecord list \<Rightarrow> 's World \<Rightarrow> 's World" where
  "delete_each_logged api zoneID [] w = w"
| "delete_each_logged api zoneID (rec # recs) w =
     delete_each_logged api zoneID recs
       (snd (invoke (DeleteDNSRecord api zoneID (rec_ID rec)) (DeleteCall zoneID (rec_ID rec)) w))"

definition deleteTunnelDNS ::
  "'s CloudflareAPI \<Rightarrow> CloudflareConfig \<Rightarrow> string \<Rightarrow> 's World \<Rightarrow> 's World" where
  "deleteTunnelDNS api cf hostname w =
     (let zoneID = tunnel_findZoneForDomain cf hostname
      in if zoneID = [] then w
         else (case invoke (ListDNSRecords api zoneID (cname_filter hostname))
                           (ListCall zoneID (cname_filter hostname)) w of
                 (Inl err, w1) \<Rightarrow> w1
               | (Inr existing, w1) \<Rightarrow> delete_each_logged api zoneID existing w1))"

fun upsert_dns_loop ::
  "'s CloudflareAPI \<Rightarrow> CloudflareConfig \<Rightarrow> string list \<Rightarrow> string \<Rightarrow> 's World \<Rightarrow> 's World" where
  "upsert_dns_loop api cf [] cnameTarget w = w"
| "upsert_dns_loop api cf (hostname # hs) cnameTarget w =
     (if ExcludeDomains cf hostname then upsert_dns_loop api cf hs cnameTarget w
      else upsert_dns_loop api cf hs cnameTarget (upsertTunnelDNS api cf hostname cnameTarget w))"

fun delete_dns_loop ::
  "'s CloudflareAPI \<Rightarrow> CloudflareConfig \<Rightarrow> string list \<Rightarrow> 's World \<Rightarrow> 's World" where
  "delete_dns_loop api cf [] w = w"
| "delete_dns_loop api cf (hostname # hs) w =
     (if ExcludeDomains cf hostname then delete_dns_loop api cf hs w
      else delete_dns_loop api cf hs (deleteTunnelDNS api cf hostname w))"

text \<open>
  \<open>AddRoutes\<close> (the version that also writes the DNS records): fetch the
  configuration, run the loop, push the whole configuration if the loop
  changed it, then write one CNAME record for each hostname that is not
  excluded.  An error of the fetch or of the push ends the call.
\<close>

definition AddRoutes ::
  "'s CloudflareAPI \<Rightarrow> TunnelConfig \<Rightarrow> CloudflareConfig \<Rightarrow> string list \<Rightarrow> string
     \<Rightarrow> 's World \<Rightarrow> 's World" where
  "AddRoutes api tunnel cf hostnames serviceURL w =
     (case invoke (GetTunnelConfiguration api (AccountID tunnel) (TunnelID tunnel))
                  (GetTunnelCall (AccountID tunnel) (TunnelID tunnel)) w of
        (Inl err, w1) \<Rightarrow> w1
      | (Inr result, w1) \<Rightarrow>
          (case add_rules cf hostnames serviceURL (Ingress result) False of
             (ingress, modified) \<Rightarrow>
               (let config = \<lparr>Ingress = ingress, WarpRouting = WarpRouting result,
                              OriginRequest = OriginRequest result\<rparr>;
                    pushed =
                      (if modified then
                         invoke (UpdateTunnelConfiguration api (AccountID tunnel)
                                   (TunnelID tunnel) config)
                                (PutTunnelCall (AccountID tunnel) (TunnelID tunnel) config) w1
                       else (Inr config, w1))
                in case pushed of
                     (Inl err, w2) \<Rightarrow> w2
                   | (Inr done, w2) \<Rightarrow>
                       upsert_dns_loop api cf hostnames
                         (TunnelID tunnel @ ''.cfargotunnel.com'') w2)))"

text \<open>
  \<open>RemoveRoutes\<close>: the set of hostnames to remove holds the hostnames that
  are not excluded; every rule whose hostname is in the set is dropped.
\<close>

fun build_removeSet ::
  "CloudflareConfig \<Rightarrow> string list \<Rightarrow> (string \<Rightarrow> bool) \<Rightarrow> (string \<Rightarrow> bool)" where
  "build_removeSet cf [] removeSet = removeSet"
| "build_removeSet cf (h # hs) removeSet =
     (if \<not> ExcludeDomains cf h then build_removeSet cf hs (removeSet(h := True))
      else build_removeSet cf hs removeSet)"

fun filter_rules ::
  "UnvalidatedIngressRule list \<Rightarrow> (string \<Rightarrow> bool) \<Rightarrow> UnvalidatedIngressRule list \<Rightarrow> bool
     \<Rightarrow> UnvalidatedIngressRule list \<times> bool" where
  "filter_rules [] removeSet filtered modified = (filtered, modified)"
| "filter_rules (rule # rules) removeSet filtered modified =
     (if removeSet (Hostname rule) then filter_rules rules removeSet filtered True
      else filter_rules rules removeSet (filtered @ [rule]) modified)"

definition RemoveRoutes ::
  "'s CloudflareAPI \<Rightarrow> TunnelConfig \<Rightarrow> CloudflareConfig \<Rightarrow> string list
     \<Rightarrow> 's World \<Rightarrow> 's World" where
  "RemoveRoutes api tunnel cf hostnames w =
     (case invoke (GetTunnelConfiguration api (AccountID tunnel) (TunnelID tunnel))
                  (GetTunnelCall (AccountID tunnel) (TunnelID tunnel)) w of
        (Inl err, w1) \<Rightarrow> w1
      | (Inr result, w1) \<Rightarrow>
          (let removeSet = build_removeSet cf hostnames (\<lambda>h. False)
           in case filter_rules (Ingress result) removeSet [] False of
                (filtered, modified) \<Rightarrow>
                  (let config = \<lparr>Ingress = filtered, WarpRouting = WarpRouting result,
                                 OriginRequest = OriginRequest result\<rparr>;
                       pushed =
                         (if modified then
                            invoke (UpdateTunnelConfiguration api (AccountID tunnel)
                                      (TunnelID tunnel) config)
                                   (PutTunnelCall (AccountID tunnel) (TunnelID tunnel) config) w1
                          else (Inr config, w1))
                   in case pushed of
                        (Inl err, w2) \<Rightarrow> w2
                      | (Inr done, w2) \<Rightarrow> delete_dns_loop api cf hostnames w2)))"

section \<open>The provider of the tests (mockCloudflareAPI in cloudflare_test.go)\<close>

text \<open>
  The tests run the syncers against an in-memory provider: the records of each
  zone in a list, the ingress rules of each tunnel, and a counter for the IDs of
  new records.  Reading a missing key of one of its maps gives the zero value.
  \<open>decimal\<close> is the text that \<open>%d\<close> prints for a number that is not negative.
\<close>

record mockCloudflareAPI =
  records :: "string \<Rightarrow> DNSRecord list"
  tunnelIngress :: "string \<Rightarrow> UnvalidatedIngressRule list"
  tunnelOrigin :: "string \<Rightarrow> OriginRequestConfig"
  tunnelWarp :: "string \<Rightarrow> WarpRoutingConfig"
  nextID :: nat

definition newMockCloudflareAPI :: mockCloudflareAPI where
  "newMockCloudflareAPI =
     \<lparr>records = (\<lambda>z. []), tunnelIngress = (\<lambda>t. []), tunnelOrigin = (\<lambda>t. []),
      tunnelWarp = (\<lambda>t. []), nextID = 1\<rparr>"

definition digit :: "nat \<Rightarrow> char" where
  "digit k = ''0123456789'' ! k"

fun decimal :: "nat \<Rightarrow> string" where
  "decimal n = (if 10 \<le> n then decimal (n div 10) @ [digit (n mod 10)] else [digit n])"

definition mock_ListDNSRecords ::
  "string \<Rightarrow> DNSRecord \<Rightarrow> mockCloudflareAPI \<Rightarrow> (error + DNSRecord list) \<times> mockCloudflareAPI" where
  "mock_ListDNSRecords zoneID flt m =
     (Inr (filter (\<lambda>rec. (rec_Type flt = [] \<or> rec_Type rec = rec_Type flt)
                         \<and> (rec_Name flt = [] \<or> rec_Name rec = rec_Name flt))
                  (records m zoneID)), m)"

definition mock_CreateDNSRecord ::
  "string \<Rightarrow> DNSRecord \<Rightarrow> mockCloudflareAPI \<Rightarrow> (error + DNSRecord) \<times> mockCloudflareAPI" where
  "mock_CreateDNSRecord zoneID record m =
     (let record' = record\<lparr>rec_ID := ''rec_'' @ decimal (nextID m)\<rparr>
      in (Inr record',
          m\<lparr>nextID := nextID m + 1,
            records := (records m)(zoneID := records m zoneID @ [record'])\<rparr>))"

fun replace_record :: "DNSRecord list \<Rightarrow> string \<Rightarrow> DNSRecord \<Rightarrow> DNSRecord list option" where
  "replace_record [] recordID record = None"
| "replace_record (r # recs) recordID record =
     (if rec_ID r = recordID then Some (record\<lparr>rec_ID := recordID\<rparr> # recs)
      else map_option ((#) r) (replace_record recs recordID record))"

definition mock_UpdateDNSRecord ::
  "string \<Rightarrow> string \<Rightarrow> DNSRecord \<Rightarrow> mockCloudflareAPI \<Rightarrow> error option \<times> mockCloudflareAPI" where
  "mock_UpdateDNSRecord zoneID recordID record m =
     (case replace_record (records m zoneID) recordID record of
        Some recs \<Rightarrow> (None, m\<lparr>records := (records m)(zoneID := recs)\<rparr>)
      | None \<Rightarrow> (Some (''record '' @ recordID @ '' not found''), m))"

fun remove_record :: "DNSRecord list \<Rightarrow> string \<Rightarrow> DNSRecord list option" where
  "remove_record [] recordID = None"
| "remove_record (r # recs) recordID =
     (if rec_ID r = recordID then Some recs
      else map_option ((#) r) (remove_record recs recordID))"

definition mock_DeleteDNSRecord ::
  "string \<Rightarrow> string \<Rightarrow> mockCloudflareAPI \<Rightarrow> error option \<times> mockCloudflareAPI" where
  "mock_DeleteDNSRecord zoneID recordID m =
     (case remove_record (records m zoneID) recordID of
        Some recs \<Rightarrow> (None, m\<lparr>records := (records m)(zoneID := recs)\<rparr>)
      | None \<Rightarrow> (Some (''record '' @ recordID @ '' not found''), m))"

definition mock_GetTunnelConfiguration ::
  "string \<Rightarrow> string \<Rightarrow> mockCloudflareAPI \<Rightarrow> (error + TunnelConfiguration) \<times> mockCloudflareAPI" where
  "mock_GetTunnelConfiguration accountID tunnelID m =
     (Inr \<lparr>Ingress = tunnelIngress m tunnelID, WarpRouting = tunnelWarp m tunnelID,
           OriginRequest = tunnelOrigin m tunnelID\<rparr>, m)"

definition mock_UpdateTunnelConfiguration ::
  "string \<Rightarrow> string \<Rightarrow> TunnelConfiguration \<Rightarrow> mockCloudflareAPI
     \<Rightarrow> (error + TunnelConfiguration) \<times> mockCloudflareAPI" where
  "mock_UpdateTunnelConfiguration accountID tunnelID config m =
     (Inr config,
      m\<lparr>tunnelIngress := (tunnelIngress m)(tunnelID := Ingress config),
        tunnelOrigin := (tunnelOrigin m)(tunnelID := OriginRequest config),
        tunnelWarp := (tunnelWarp m)(tunnelID := WarpRouting config)\<rparr>)"

definition mockAPI :: "mockCloudflareAPI CloudflareAPI" where
  "mockAPI =
     \<lparr>ListDNSRecords = mock_ListDNSRecords,
      CreateDNSRecord = mock_CreateDNSRecord,
      UpdateDNSRecord = mock_UpdateDNSRecord,
      DeleteDNSRecord = mock_DeleteDNSRecord,
      GetTunnelConfiguration = mock_GetTunnelConfiguration,
      UpdateTunnelConfiguration = mock_UpdateTunnelConfiguration\<rparr>"

section \<open>Zone matching as the specification words it\<close>

text \<open>
  A configured suffix matches a domain when the domain equals the suffix or
  ends with a dot followed by the suffix.  \<open>zones_example\<close> is the zone list of
  the specification's example; \<open>zones_empty_suffix\<close> is a configuration whose one
  zone has the empty suffix.
\<close>

definition zone_matches :: "string \<Rightarrow> string \<Rightarrow> bool" where
  "zone_matches domain suffix = (domain = suffix \<or> HasSuffix domain (''.'' @ suffix))"

definition zones_example :: CloudflareConfig where
  "zones_example =
     \<lparr>TargetDomain = ''traefik.homelab.net'', Proxied = False, ExcludeDomains = (\<lambda>d. False),
      Zones = [\<lparr>ZoneDomain = ''net'', ZoneID = ''Z1''\<rparr>, \<lparr>ZoneDomain = ''homelab.net'', ZoneID = ''Z2''\<rparr>]\<rparr>"

definition zones_empty_suffix :: CloudflareConfig where
  "zones_empty_suffix =
     \<lparr>TargetDomain = ''traefik.homelab.net'', Proxied = False, ExcludeDomains = (\<lambda>d. False),
      Zones = [\<lparr>ZoneDomain = [], ZoneID = ''Z0''\<rparr>]\<rparr>"

section \<open>What a call is about\<close>

text \<open>
  A listing, a creation and an update name a domain in the record they pass.
  A pushed tunnel configuration keeps the excluded names out of what it
  changes when every fetched rule with an excluded hostname is still in the
  pushed list and the pushed list has no other rule with an excluded hostname
  (apart from the catch-all rule that \<open>AddRoutes\<close> appends to an empty list).
\<close>

definition excluded_rules_kept ::
  "CloudflareConfig \<Rightarrow> UnvalidatedIngressRule list \<Rightarrow> UnvalidatedIngressRule list \<Rightarrow> bool" where
  "excluded_rules_kept cf fetched pushed =
     ((\<forall>r \<in> set fetched. ExcludeDomains cf (Hostname r) \<longrightarrow> r \<in> set pushed)
      \<and> (\<forall>r \<in> set pushed. ExcludeDomains cf (Hostname r) \<longrightarrow> r \<in> set fetched \<or> r = catch_all))"

fun call_ok :: "CloudflareConfig \<Rightarrow> UnvalidatedIngressRule list \<Rightarrow> APICall \<Rightarrow> bool" where
  "call_ok cf fetched (ListCall zoneID flt) = (\<not> ExcludeDomains cf (rec_Name flt))"
| "call_ok cf fetched (CreateCall zoneID record) = (\<not> ExcludeDomains cf (rec_Name record))"
| "call_ok cf fetched (UpdateCall zoneID recordID record) =
     (\<not> ExcludeDomains cf (rec_Name record))"
| "call_ok cf fetched (DeleteCall zoneID recordID) = True"
| "call_ok cf fetched (GetTunnelCall accountID tunnelID) = True"
| "call_ok cf fetched (PutTunnelCall accountID tunnelID config) =
     excluded_rules_kept cf fetched (Ingress config)"

text \<open>The calls that the DNS functions make for one domain.\<close>

fun dns_call_for :: "string \<Rightarrow> APICall \<Rightarrow> bool" where
  "dns_call_for d (ListCall zoneID flt) = (rec_Name flt = d)"
| "dns_call_for d (CreateCall zoneID record) = (rec_Name record = d)"
| "dns_call_for d (UpdateCall zoneID recordID record) = (rec_Name record = d)"
| "dns_call_for d (DeleteCall zoneID recordID) = True"
| "dns_call_for d (GetTunnelCall accountID tunnelID) = False"
| "dns_call_for d (PutTunnelCall accountID tunnelID config) = False"

text \<open>
  The configuration and the tunnel of the test \<open>TestTunnelExcludeDomains\<close>,
  and a provider state in which the excluded name has a record and a rule.
\<close>

definition exclude_cfg :: CloudflareConfig where
  "exclude_cfg =
     \<lparr>TargetDomain = ''traefik.homelab.net'', Proxied = False,
      ExcludeDomains = (\<lambda>d. d = ''internal.homelab.net''),
      Zones = [\<lparr>ZoneDomain = ''homelab.net'', ZoneID = ''zone_1''\<rparr>]\<rparr>"

definition test_tunnel :: TunnelConfig where
  "test_tunnel = \<lparr>TunnelID = ''test-tunnel-uuid'', AccountID = ''test-account-id''\<rparr>"

definition seeded_mock :: mockCloudflareAPI where
  "seeded_mock = newMockCloudflareAPI\<lparr>tunnelIngress := (\<lambda>t. [])(''test-tunnel-uuid'' := [catch_all])\<rparr>"

section \<open>The tunnel of the tests\<close>

text \<open>
  \<open>newTunnelTestSetup\<close> of \<open>cloudflare_test.go\<close>: no excluded name, one zone,
  and the tunnel \<open>test-tunnel-uuid\<close> seeded with a catch-all rule
  (\<open>seeded_mock\<close>).  \<open>first_service\<close> is the service of the first rule with a
  hostname, the rule that the inner loop of \<open>AddRoutes\<close> stops at.
\<close>

definition tunnel_cfg :: CloudflareConfig where
  "tunnel_cfg =
     \<lparr>TargetDomain = ''traefik.homelab.net'', Proxied = False, ExcludeDomains = (\<lambda>d. False),
      Zones = [\<lparr>ZoneDomain = ''homelab.net'', ZoneID = ''zone_1''\<rparr>]\<rparr>"

definition first_service :: "UnvalidatedIngressRule list \<Rightarrow> string \<Rightarrow> string option" where
  "first_service ingress hostname =
     map_option Service (find (\<lambda>rule. Hostname rule = hostname) ingress)"



section \<open>The CNAME records of a name\<close>

text \<open>
  \<open>cname_records\<close> are the records of a zone that a listing for type CNAME and
  a name returns.  \<open>mock_wf\<close> holds of the states that the provider of the tests
  can reach: within a zone no two records share an ID, and no record has an ID
  that the counter has yet to hand out.
\<close>

definition cname_records :: "mockCloudflareAPI \<Rightarrow> string \<Rightarrow> string \<Rightarrow> DNSRecord list" where
  "cname_records m zoneID name =
     filter (\<lambda>rec. rec_Type rec = ''CNAME'' \<and> rec_Name rec = name) (records m zoneID)"

definition mock_wf :: "mockCloudflareAPI \<Rightarrow> bool" where
  "mock_wf m =
     (\<forall>z. distinct (map rec_ID (records m z))
          \<and> (\<forall>r \<in> set (records m z). \<forall>k \<ge> nextID m. rec_ID r \<noteq> ''rec_'' @ decimal k))"

fun is_list :: "APICall \<Rightarrow> bool" where
  "is_list (ListCall zoneID flt) = True"
| "is_list (CreateCall zoneID record) = False"
| "is_list (UpdateCall zoneID recordID record) = False"
| "is_list (DeleteCall zoneID recordID) = False"
| "is_list (GetTunnelCall accountID tunnelID) = False"
| "is_list (PutTunnelCall accountID tunnelID config) = False"

text \<open>
  What one upsert of a name does to the records listed for the name: nothing
  listed, one record is created; the first record has the target, nothing
  changes; otherwise the first record is written over and keeps its ID.
\<close>

definition upserted :: "DNSRecord list \<Rightarrow> DNSRecord \<Rightarrow> string \<Rightarrow> DNSRecord list" where
  "upserted existing record newID =
     (case existing of
        [] \<Rightarrow> [record\<lparr>rec_ID := newID\<rparr>]
      | rec # rest \<Rightarrow>
          if rec_Content rec = rec_Content record then rec # rest
          else record\<lparr>rec_ID := rec_ID rec\<rparr> # rest)"

text \<open>
  A name is in sync when \<open>SyncDomains\<close> has nothing to write for it: it is
  excluded, or has no zone, or the first record listed for it has the target.
  A name is handled when \<open>SyncDomains\<close> makes an upsert for it.
\<close>

definition in_sync :: "CloudflareConfig \<Rightarrow> mockCloudflareAPI \<Rightarrow> string \<Rightarrow> bool" where
  "in_sync cfg m d =
     (ExcludeDomains cfg d \<or> findZoneForDomain cfg d = []
      \<or> (cname_records m (findZoneForDomain cfg d) d \<noteq> []
          \<and> rec_Content (hd (cname_records m (findZoneForDomain cfg d) d)) = TargetDomain cfg))"

definition handled :: "CloudflareConfig \<Rightarrow> string \<Rightarrow> bool" where
  "handled cfg d = (\<not> ExcludeDomains cfg d \<and> findZoneForDomain cfg d \<noteq> [])"

section \<open>Properties of the lookup\<close>

lemma scan_domains_iff: "scan_domains ds q \<longleftrightarrow> (\<exists>d \<in> set ds. d @ ''.'' = q)"
  by (induction ds) auto

lemma scan_entries_None:
  "scan_entries m ks q = None \<longleftrightarrow>
     (\<forall>k \<in> set ks. \<forall>ci. m k = Some ci \<longrightarrow>
        \<not> scan_domains (domains ci) q \<and> \<not> scan_domains (cnameDomains ci) q)"
proof (induction ks)
  case Nil
  show ?case by simp
next
  case (Cons k ks)
  show ?case
  proof (cases "m k")
    case None
    then show ?thesis using Cons.IH by simp
  next
    case (Some ci)
    then show ?thesis using Cons.IH by simp
  qed
qed

lemma HasSuffix_append: "HasSuffix (d @ x) x"
  by (simp add: HasSuffix_def)

lemma ids_differ: "ID traefikContainer \<noteq> ID whoamiContainer"
  by (simp add: traefikContainer_def whoamiContainer_def)

lemma priority_order_ok: "iteration_order (containerInfoMap priority_dd) priority_order"
  using ids_differ by (auto simp: iteration_order_def priority_dd_def priority_order_def)

lemma priority_lookup_traefik:
  "containerInfoByDomain priority_dd priority_order ''traefik.177cpt.com.''
     = Some \<lparr>containerInfo = traefikInfo, isCNAME = False\<rparr>"
  by (simp add: containerInfoByDomain_def priority_dd_def priority_order_def traefikInfo_def
                ids_differ)

lemma priority_lookup_whoami:
  "containerInfoByDomain priority_dd priority_order ''whoami.177cpt.com.''
     = Some \<lparr>containerInfo = whoamiInfo, isCNAME = False\<rparr>"
  by (simp add: containerInfoByDomain_def priority_dd_def priority_order_def traefikInfo_def
                whoamiInfo_def ids_differ)

lemma both_lookup:
  "containerInfoByDomain both_dd [ID traefikContainer] ''traefik.177cpt.com.''
     = Some \<lparr>containerInfo = traefikInfo\<lparr>cnameDomains := [''traefik.177cpt.com'']\<rparr>,
             isCNAME = False\<rparr>"
  by (simp add: containerInfoByDomain_def both_dd_def priority_dd_def traefikInfo_def)

text \<open>
  C1.  The claim: a name that is a plain domain of some entry and a CNAME
  domain of some entry is always looked up as CNAME, so that an A query and a
  CNAME query for it are answered with a CNAME record.  The code compares the
  plain domains of an entry before its CNAME domains and returns at the first
  match.  In the registry of the test \<open>TestCnamePriorityOverARecord\<close>, when the
  loop visits the container \<open>traefik\<close> first, the name \<open>traefik.177cpt.com.\<close> is
  looked up as a plain name: the A query is answered with the A record of the
  container's own address and the CNAME query goes to the next handler.  When
  one entry carries the name on both lists the same happens in the only order
  there is.
\<close>

theorem cname_priority_fails:
  "iteration_order (containerInfoMap priority_dd) priority_order
   \<and> containerInfoByDomain priority_dd priority_order ''traefik.177cpt.com.''
       = Some \<lparr>containerInfo = traefikInfo, isCNAME = False\<rparr>
   \<and> ServeDNS priority_dd priority_order
        \<lparr>QType = TypeA, QName = ''traefik.177cpt.com.'', ReqName = ''traefik.177cpt.com.''\<rparr>
      = Wrote \<lparr>Response = True, Authoritative = True, RecursionAvailable = False,
               Compress = False, Rcode = RcodeSuccess,
               Answer = [A_RR ''traefik.177cpt.com.'' 3600 (Some ''172.18.0.5'')]\<rparr> RcodeSuccess
   \<and> ServeDNS priority_dd priority_order
        \<lparr>QType = TypeCNAME, QName = ''traefik.177cpt.com.'', ReqName = ''traefik.177cpt.com.''\<rparr>
      = NextOrFailure
   \<and> iteration_order (containerInfoMap both_dd) [ID traefikContainer]
   \<and> map_option isCNAME
        (containerInfoByDomain both_dd [ID traefikContainer] ''traefik.177cpt.com.'') = Some False
   \<and> ServeDNS both_dd [ID traefikContainer]
        \<lparr>QType = TypeA, QName = ''traefik.177cpt.com.'', ReqName = ''traefik.177cpt.com.''\<rparr>
      = Wrote \<lparr>Response = True, Authoritative = True, RecursionAvailable = False,
               Compress = False, Rcode = RcodeSuccess,
               Answer = [A_RR ''traefik.177cpt.com.'' 3600 (Some ''172.18.0.5'')]\<rparr> RcodeSuccess"
proof -
  have o2: "iteration_order (containerInfoMap both_dd) [ID traefikContainer]"
    by (simp add: iteration_order_def both_dd_def priority_dd_def)
  have a1: "ServeDNS priority_dd priority_order
        \<lparr>QType = TypeA, QName = ''traefik.177cpt.com.'', ReqName = ''traefik.177cpt.com.''\<rparr>
      = Wrote \<lparr>Response = True, Authoritative = True, RecursionAvailable = False,
               Compress = False, Rcode = RcodeSuccess,
               Answer = [A_RR ''traefik.177cpt.com.'' 3600 (Some ''172.18.0.5'')]\<rparr> RcodeSuccess"
    by (simp add: ServeDNS_def priority_lookup_traefik SetReply_def Scrub_def)
       (simp add: priority_dd_def traefikInfo_def)
  have c1: "ServeDNS priority_dd priority_order
        \<lparr>QType = TypeCNAME, QName = ''traefik.177cpt.com.'', ReqName = ''traefik.177cpt.com.''\<rparr>
      = NextOrFailure"
    by (simp add: ServeDNS_def priority_lookup_traefik TypeA_def TypeCNAME_def TypeAAAA_def)
  have a2: "ServeDNS both_dd [ID traefikContainer]
        \<lparr>QType = TypeA, QName = ''traefik.177cpt.com.'', ReqName = ''traefik.177cpt.com.''\<rparr>
      = Wrote \<lparr>Response = True, Authoritative = True, RecursionAvailable = False,
               Compress = False, Rcode = RcodeSuccess,
               Answer = [A_RR ''traefik.177cpt.com.'' 3600 (Some ''172.18.0.5'')]\<rparr> RcodeSuccess"
    by (simp add: ServeDNS_def both_lookup SetReply_def Scrub_def)
       (simp add: both_dd_def priority_dd_def traefikInfo_def)
  show ?thesis
    using priority_order_ok priority_lookup_traefik both_lookup o2 a1 c1 a2 by simp
qed

text \<open>
  C2.  An AAAA query whose lookup returns a plain (not CNAME) entry with an
  IPv4 address and no IPv6 address is answered by \<open>ServeDNS\<close> itself: it writes
  a response that is authoritative, has rcode NOERROR (not NXDOMAIN) and an
  empty answer section, and returns \<open>RcodeSuccess\<close>; the query is not handed to
  the next handler.
\<close>

theorem ServeDNS_AAAA_nodata:
  assumes "QType r = TypeAAAA"
      and "containerInfoByDomain dd order (QName r) = Some res"
      and "\<not> isCNAME res"
      and "address (containerInfo res) \<noteq> None"
      and "address6 (containerInfo res) = None"
  shows "\<exists>m. ServeDNS dd order r = Wrote m RcodeSuccess
           \<and> ServeDNS dd order r \<noteq> NextOrFailure
           \<and> Response m \<and> Authoritative m \<and> \<not> RecursionAvailable m
           \<and> Rcode m = RcodeSuccess \<and> Rcode m \<noteq> RcodeNameError \<and> Answer m = []"
  using assms
  by (simp add: ServeDNS_def TypeA_def TypeAAAA_def SetReply_def Scrub_def RcodeSuccess_def
                RcodeNameError_def)

theorem ServeDNS_AAAA_nodata_witness:
  "QType \<lparr>QType = TypeAAAA, QName = ''whoami.177cpt.com.'', ReqName = ''whoami.177cpt.com.''\<rparr>
     = TypeAAAA
   \<and> containerInfoByDomain priority_dd priority_order ''whoami.177cpt.com.''
       = Some \<lparr>containerInfo = whoamiInfo, isCNAME = False\<rparr>
   \<and> address whoamiInfo = Some ''172.18.0.10'' \<and> address6 whoamiInfo = None
   \<and> ServeDNS priority_dd priority_order
        \<lparr>QType = TypeAAAA, QName = ''whoami.177cpt.com.'', ReqName = ''whoami.177cpt.com.''\<rparr>
      = Wrote \<lparr>Response = True, Authoritative = True, RecursionAvailable = False,
               Compress = False, Rcode = RcodeSuccess, Answer = []\<rparr> RcodeSuccess"
proof -
  let ?r = "\<lparr>QType = TypeAAAA, QName = ''whoami.177cpt.com.'', ReqName = ''whoami.177cpt.com.''\<rparr>"
  have l: "containerInfoByDomain priority_dd priority_order (QName ?r)
             = Some \<lparr>containerInfo = whoamiInfo, isCNAME = False\<rparr>"
    using priority_lookup_whoami by simp
  have "\<exists>m. ServeDNS priority_dd priority_order ?r = Wrote m RcodeSuccess
           \<and> ServeDNS priority_dd priority_order ?r \<noteq> NextOrFailure
           \<and> Response m \<and> Authoritative m \<and> \<not> RecursionAvailable m
           \<and> Rcode m = RcodeSuccess \<and> Rcode m \<noteq> RcodeNameError \<and> Answer m = []"
    by (rule ServeDNS_AAAA_nodata [OF _ l]) (simp_all add: whoamiInfo_def)
  then obtain m where m: "ServeDNS priority_dd priority_order ?r = Wrote m RcodeSuccess"
    and "Answer m = []" by blast
  have e: "ServeDNS priority_dd priority_order ?r
      = Wrote \<lparr>Response = True, Authoritative = True, RecursionAvailable = False,
               Compress = False, Rcode = RcodeSuccess, Answer = []\<rparr> RcodeSuccess"
    by (simp add: ServeDNS_def priority_lookup_whoami SetReply_def Scrub_def TypeA_def TypeAAAA_def
                  whoamiInfo_def)
  show ?thesis using e priority_lookup_whoami by (simp add: whoamiInfo_def)
qed

text \<open>
  C9.  \<open>containerInfoByDomain\<close> finds a name only when it is, byte for byte, a
  stored domain followed by one dot: it returns \<open>nil\<close> exactly when no stored
  domain \<open>d\<close> of any entry has \<open>d @ ''.''\<close> equal to the query name.  So a query
  name without a final dot is never found, a query that differs from the
  stored names in letter case is not found, and \<open>ServeDNS\<close> hands a query whose
  name is not found to the next handler.
\<close>

theorem containerInfoByDomain_exact:
  assumes "iteration_order (containerInfoMap dd) order"
  shows "(containerInfoByDomain dd order q = None \<longleftrightarrow>
            (\<forall>ci \<in> ran (containerInfoMap dd).
               \<forall>d \<in> set (domains ci @ cnameDomains ci). d @ ''.'' \<noteq> q))
       \<and> (\<not> HasSuffix q ''.'' \<longrightarrow> containerInfoByDomain dd order q = None)
       \<and> (containerInfoByDomain dd order q = None \<and> QName r = q \<longrightarrow>
            ServeDNS dd order r = NextOrFailure)"
proof (intro conjI)
  have keys: "set order = dom (containerInfoMap dd)"
    using assms by (simp add: iteration_order_def)
  show "containerInfoByDomain dd order q = None \<longleftrightarrow>
            (\<forall>ci \<in> ran (containerInfoMap dd).
               \<forall>d \<in> set (domains ci @ cnameDomains ci). d @ ''.'' \<noteq> q)"
    unfolding containerInfoByDomain_def scan_entries_None scan_domains_iff
    using keys by (fastforce simp: ran_def dom_def)
  show "\<not> HasSuffix q ''.'' \<longrightarrow> containerInfoByDomain dd order q = None"
    unfolding containerInfoByDomain_def scan_entries_None scan_domains_iff
    using HasSuffix_append by blast
  show "containerInfoByDomain dd order q = None \<and> QName r = q \<longrightarrow>
            ServeDNS dd order r = NextOrFailure"
    by (simp add: ServeDNS_def)
qed

theorem containerInfoByDomain_exact_witness:
  "iteration_order (containerInfoMap priority_dd) priority_order
   \<and> containerInfoByDomain priority_dd priority_order ''whoami.177cpt.com.''
       = Some \<lparr>containerInfo = whoamiInfo, isCNAME = False\<rparr>
   \<and> containerInfoByDomain priority_dd priority_order ''whoami.177cpt.com'' = None
   \<and> containerInfoByDomain priority_dd priority_order ''WHOAMI.177cpt.com.'' = None
   \<and> ServeDNS priority_dd priority_order
        \<lparr>QType = TypeA, QName = ''WHOAMI.177cpt.com.'', ReqName = ''whoami.177cpt.com.''\<rparr>
      = NextOrFailure"
proof -
  let ?r = "\<lparr>QType = TypeA, QName = ''WHOAMI.177cpt.com.'', ReqName = ''whoami.177cpt.com.''\<rparr>"
  have nodot: "containerInfoByDomain priority_dd priority_order ''whoami.177cpt.com'' = None"
    using containerInfoByDomain_exact [OF priority_order_ok, of "''whoami.177cpt.com''"]
    by (simp add: HasSuffix_def)
  have "ran (containerInfoMap priority_dd) = {traefikInfo, whoamiInfo}"
    using ids_differ by (auto simp: priority_dd_def ran_map_upd)
  then have upper: "containerInfoByDomain priority_dd priority_order ''WHOAMI.177cpt.com.'' = None"
    using containerInfoByDomain_exact [OF priority_order_ok, of "''WHOAMI.177cpt.com.''"]
    by (simp add: traefikInfo_def whoamiInfo_def)
  have "ServeDNS priority_dd priority_order ?r = NextOrFailure"
    using containerInfoByDomain_exact [OF priority_order_ok, of "''WHOAMI.177cpt.com.''" ?r] upper
    by simp
  then show ?thesis
    using priority_order_ok priority_lookup_whoami nodot upper by simp
qed

section \<open>Properties of the registry upsert\<close>

lemma unset_absent: "m k = None \<Longrightarrow> m(k := None) = m"
  by (rule ext) simp

lemma updateContainerInfo_no_address:
  assumes "resolveDomainsByContainer dd c = (ds, cnames, e)"
      and "getContainerAddress ParseIP dd c False = Some (None, err)"
  shows "updateContainerInfo ParseIP dd c =
           Some (dd\<lparr>containerInfoMap :=
                      (if cnames = [] then (containerInfoMap dd)(ID c := None)
                       else (containerInfoMap dd)
                              (ID c \<mapsto> \<lparr>container = c, address = None, address6 = None,
                                         domains = [], cnameDomains = cnames\<rparr>))\<rparr>,
                 if cloudflareSyncer dd \<and> cnames \<noteq> [] then Some cnames else None)"
proof (cases "containerInfoMap dd (ID c)")
  case None
  then have "(containerInfoMap dd)(ID c := None) = containerInfoMap dd"
    by (rule unset_absent)
  then show ?thesis
    using assms None by (simp add: updateContainerInfo_def)
next
  case (Some old)
  then show ?thesis
    using assms by (simp add: updateContainerInfo_def)
qed

lemma updateContainerInfo_cases:
  assumes "resolveDomainsByContainer dd c = (ds, cnames, e)"
      and "updateContainerInfo ParseIP dd c = Some (dd', sp)"
  obtains a err a6 where
      "getContainerAddress ParseIP dd c False = Some (a, err)"
      "a = None \<longrightarrow> a6 = None"
      "containerInfoMap dd' =
         (let ds' = (if a = None then [] else ds)
          in if ds' = [] \<and> cnames = [] then (containerInfoMap dd)(ID c := None)
             else (containerInfoMap dd)
                    (ID c \<mapsto> \<lparr>container = c, address = a, address6 = a6,
                               domains = ds', cnameDomains = cnames\<rparr>))"
proof -
  have m: "(if containerInfoMap dd (ID c) \<noteq> None then (containerInfoMap dd)(ID c := None)
            else containerInfoMap dd) = (containerInfoMap dd)(ID c := None)"
    by (simp add: unset_absent)
  obtain a err where v4: "getContainerAddress ParseIP dd c False = Some (a, err)"
    using assms(2) by (cases "getContainerAddress ParseIP dd c False")
                      (auto simp: updateContainerInfo_def)
  obtain a6 where v6: "(if a \<noteq> None then map_option fst (getContainerAddress ParseIP dd c True)
                        else Some None) = Some a6"
    using assms(2) v4
    by (cases "if a \<noteq> None then map_option fst (getContainerAddress ParseIP dd c True)
               else Some None")
       (auto simp: updateContainerInfo_def Let_def)
  have a6: "a = None \<longrightarrow> a6 = None"
    using v6 by auto
  have "containerInfoMap dd' =
         (let ds' = (if a = None then [] else ds)
          in if ds' = [] \<and> cnames = [] then (containerInfoMap dd)(ID c := None)
             else (containerInfoMap dd)
                    (ID c \<mapsto> \<lparr>container = c, address = a, address6 = a6,
                               domains = ds', cnameDomains = cnames\<rparr>))"
    using assms v4 v6 unfolding updateContainerInfo_def m
    by (auto simp: Let_def split: if_splits)
  then show thesis using that v4 a6 by blast
qed

lemma updateContainerInfo_address:
  assumes "resolveDomainsByContainer dd c = (ds, cnames, e)"
      and "getContainerAddress ParseIP dd c False = Some (Some a, err)"
      and "getContainerAddress ParseIP dd c True = Some (a6, err6)"
  shows "updateContainerInfo ParseIP dd c =
           Some (dd\<lparr>containerInfoMap :=
                      (if ds = [] \<and> cnames = [] then (containerInfoMap dd)(ID c := None)
                       else (containerInfoMap dd)
                              (ID c \<mapsto> \<lparr>container = c, address = Some a, address6 = a6,
                                         domains = ds, cnameDomains = cnames\<rparr>))\<rparr>,
                 if cloudflareSyncer dd \<and> cnames \<noteq> [] then Some cnames else None)"
proof (cases "containerInfoMap dd (ID c)")
  case None
  then have "(containerInfoMap dd)(ID c := None) = containerInfoMap dd"
    by (rule unset_absent)
  then show ?thesis
    using assms None by (simp add: updateContainerInfo_def)
next
  case (Some old)
  then show ?thesis
    using assms by (simp add: updateContainerInfo_def)
qed

lemma updateContainerInfo_returns:
  "updateContainerInfo ParseIP dd c = None \<longleftrightarrow>
     getContainerAddress ParseIP dd c False = None
     \<or> (\<exists>a x. getContainerAddress ParseIP dd c False = Some (Some a, x))
        \<and> getContainerAddress ParseIP dd c True = None"
  by (auto simp: updateContainerInfo_def Let_def split: option.splits prod.splits if_splits)

text \<open>
  C7.  The domains of a container are those of the resolver chain, whatever
  address resolution does afterwards.  When IPv4 address resolution returns
  no address (with an error or without), \<open>updateContainerInfo\<close> returns, the
  plain domains are dropped and the CNAME domains are kept: the entry stored
  has no address, no plain domain and the CNAME domains.  When IPv4 address
  resolution returns an address and IPv6 address resolution returns,
  \<open>updateContainerInfo\<close> returns and the entry stored has both addresses, the
  plain domains and the CNAME domains of the resolver chain.  In both cases,
  when there is no plain domain left and no CNAME domain, the registry has no
  entry for the container ID, also when it had one before.  The function fails
  to return only when an address resolution that it runs does not return.
  Other entries are not touched.
\<close>

theorem updateContainerInfo_domains:
  assumes "resolveDomainsByContainer dd c = (ds, cnames, e)"
  shows "(getContainerAddress ParseIP dd c False = Some (None, err) \<longrightarrow>
            updateContainerInfo ParseIP dd c =
              Some (dd\<lparr>containerInfoMap :=
                         (if cnames = [] then (containerInfoMap dd)(ID c := None)
                          else (containerInfoMap dd)
                                 (ID c \<mapsto> \<lparr>container = c, address = None, address6 = None,
                                            domains = [], cnameDomains = cnames\<rparr>))\<rparr>,
                    if cloudflareSyncer dd \<and> cnames \<noteq> [] then Some cnames else None))
       \<and> (getContainerAddress ParseIP dd c False = Some (Some a, err)
            \<and> getContainerAddress ParseIP dd c True = Some (a6, err6) \<longrightarrow>
            updateContainerInfo ParseIP dd c =
              Some (dd\<lparr>containerInfoMap :=
                         (if ds = [] \<and> cnames = [] then (containerInfoMap dd)(ID c := None)
                          else (containerInfoMap dd)
                                 (ID c \<mapsto> \<lparr>container = c, address = Some a, address6 = a6,
                                            domains = ds, cnameDomains = cnames\<rparr>))\<rparr>,
                    if cloudflareSyncer dd \<and> cnames \<noteq> [] then Some cnames else None))
       \<and> (updateContainerInfo ParseIP dd c = None \<longleftrightarrow>
            getContainerAddress ParseIP dd c False = None
            \<or> (\<exists>b x. getContainerAddress ParseIP dd c False = Some (Some b, x))
               \<and> getContainerAddress ParseIP dd c True = None)
       \<and> (updateContainerInfo ParseIP dd c = Some (dd', sp) \<longrightarrow>
            (\<forall>ci. containerInfoMap dd' (ID c) = Some ci \<longrightarrow>
                    cnameDomains ci = cnames \<and> (domains ci = ds \<or> domains ci = [])
                    \<and> (domains ci \<noteq> [] \<or> cnameDomains ci \<noteq> []))
            \<and> (cnames = [] \<and>
                 (ds = [] \<or> (\<exists>x. getContainerAddress ParseIP dd c False = Some (None, x)))
                 \<longrightarrow> containerInfoMap dd' (ID c) = None)
            \<and> (\<forall>k. k \<noteq> ID c \<longrightarrow> containerInfoMap dd' k = containerInfoMap dd k))"
proof (intro conjI impI)
  assume "getContainerAddress ParseIP dd c False = Some (None, err)"
  then show "updateContainerInfo ParseIP dd c =
              Some (dd\<lparr>containerInfoMap :=
                         (if cnames = [] then (containerInfoMap dd)(ID c := None)
                          else (containerInfoMap dd)
                                 (ID c \<mapsto> \<lparr>container = c, address = None, address6 = None,
                                            domains = [], cnameDomains = cnames\<rparr>))\<rparr>,
                    if cloudflareSyncer dd \<and> cnames \<noteq> [] then Some cnames else None)"
    using assms by (rule updateContainerInfo_no_address [rotated])
next
  assume "getContainerAddress ParseIP dd c False = Some (Some a, err)
            \<and> getContainerAddress ParseIP dd c True = Some (a6, err6)"
  then show "updateContainerInfo ParseIP dd c =
              Some (dd\<lparr>containerInfoMap :=
                         (if ds = [] \<and> cnames = [] then (containerInfoMap dd)(ID c := None)
                          else (containerInfoMap dd)
                                 (ID c \<mapsto> \<lparr>container = c, address = Some a, address6 = a6,
                                            domains = ds, cnameDomains = cnames\<rparr>))\<rparr>,
                    if cloudflareSyncer dd \<and> cnames \<noteq> [] then Some cnames else None)"
    using updateContainerInfo_address [OF assms] by blast
next
  show "updateContainerInfo ParseIP dd c = None \<longleftrightarrow>
            getContainerAddress ParseIP dd c False = None
            \<or> (\<exists>b x. getContainerAddress ParseIP dd c False = Some (Some b, x))
               \<and> getContainerAddress ParseIP dd c True = None"
    by (rule updateContainerInfo_returns)
next
  assume r: "updateContainerInfo ParseIP dd c = Some (dd', sp)"
  from assms r obtain a err' a6 where
      v4: "getContainerAddress ParseIP dd c False = Some (a, err')"
    and m': "containerInfoMap dd' =
         (let ds' = (if a = None then [] else ds)
          in if ds' = [] \<and> cnames = [] then (containerInfoMap dd)(ID c := None)
             else (containerInfoMap dd)
                    (ID c \<mapsto> \<lparr>container = c, address = a, address6 = a6,
                               domains = ds', cnameDomains = cnames\<rparr>))"
    by (rule updateContainerInfo_cases)
  show "\<forall>ci. containerInfoMap dd' (ID c) = Some ci \<longrightarrow>
               cnameDomains ci = cnames \<and> (domains ci = ds \<or> domains ci = [])
               \<and> (domains ci \<noteq> [] \<or> cnameDomains ci \<noteq> [])"
    unfolding m' by (auto simp: Let_def split: if_splits)
  show "containerInfoMap dd' (ID c) = None"
    if "cnames = [] \<and> (ds = [] \<or> (\<exists>x. getContainerAddress ParseIP dd c False = Some (None, x)))"
    using that v4 unfolding m' by (auto simp: Let_def)
  show "\<forall>k. k \<noteq> ID c \<longrightarrow> containerInfoMap dd' k = containerInfoMap dd k"
    unfolding m' by (simp add: Let_def)
qed


lemma v6only_resolved:
  "resolveDomainsByContainer v6only_dd v6onlyContainer
     = ([''app.docker.loc''], [''app.homelab.net''], None)"
  by (simp add: resolveDomainsByContainer_def v6only_dd_def v6onlyContainer_def
                SubDomainContainerNameResolver_def normalizeContainerName_def)

lemma v6only_loop:
  "address_loop ParseIP_nonempty (dockerClient v6only_dd) False v6 v6onlyContainer
     = Some (if v6 then Returned (Some ''fd00::5'') None else Broke v6onlyContainer ''net6'')"
  by (subst address_loop.simps)
     (simp add: v6onlyContainer_def HasPrefix_def ParseIP_nonempty_def)

lemma v6only_label:
  "Labels (Config v6onlyContainer) ''coredns.dockerdiscovery.network'' = None"
  by (simp add: v6onlyContainer_def)

lemma v6only_v4: "getContainerAddress ParseIP_nonempty v6only_dd v6onlyContainer False
                    = Some (None, None)"
  by (simp add: getContainerAddress_def v6only_label v6only_loop)
     (simp add: v6onlyContainer_def ParseIP_nonempty_def)

lemma v6only_v6: "getContainerAddress ParseIP_nonempty v6only_dd v6onlyContainer True
                    = Some (Some ''fd00::5'', None)"
  by (simp add: getContainerAddress_def v6only_label v6only_loop)

lemma dualStack_resolved:
  "resolveDomainsByContainer v6only_dd dualStackContainer
     = ([''app.docker.loc''], [''app.homelab.net''], None)"
  by (simp add: resolveDomainsByContainer_def v6only_dd_def dualStackContainer_def
                v6onlyContainer_def SubDomainContainerNameResolver_def
                normalizeContainerName_def)

lemma dualStack_loop:
  "address_loop ParseIP_nonempty (dockerClient v6only_dd) False v6 dualStackContainer
     = Some (if v6 then Returned (Some ''fd00::5'') None else Broke dualStackContainer ''net6'')"
  by (subst address_loop.simps)
     (simp add: dualStackContainer_def v6onlyContainer_def HasPrefix_def ParseIP_nonempty_def)

lemma dualStack_label:
  "Labels (Config dualStackContainer) ''coredns.dockerdiscovery.network'' = None"
  by (simp add: dualStackContainer_def v6onlyContainer_def)

lemma dualStack_v4:
  "getContainerAddress ParseIP_nonempty v6only_dd dualStackContainer False
     = Some (Some ''172.18.0.7'', None)"
  by (simp add: getContainerAddress_def dualStack_label dualStack_loop)
     (simp add: dualStackContainer_def ParseIP_nonempty_def)

lemma dualStack_v6:
  "getContainerAddress ParseIP_nonempty v6only_dd dualStackContainer True
     = Some (Some ''fd00::5'', None)"
  by (simp add: getContainerAddress_def dualStack_label dualStack_loop)

theorem updateContainerInfo_domains_witness:
  "resolveDomainsByContainer v6only_dd v6onlyContainer
     = ([''app.docker.loc''], [''app.homelab.net''], None)
   \<and> getContainerAddress ParseIP_nonempty v6only_dd v6onlyContainer False = Some (None, None)
   \<and> updateContainerInfo ParseIP_nonempty v6only_dd v6onlyContainer
       = Some (v6only_dd\<lparr>containerInfoMap :=
                 [ID v6onlyContainer \<mapsto>
                    \<lparr>container = v6onlyContainer, address = None, address6 = None,
                     domains = [], cnameDomains = [''app.homelab.net'']\<rparr>]\<rparr>,
               Some [''app.homelab.net''])
   \<and> containerInfoMap v6only_dd (ID v6onlyContainer) \<noteq> None
   \<and> resolveDomainsByContainer (v6only_dd\<lparr>traefikResolver := None\<rparr>) v6onlyContainer
       = ([''app.docker.loc''], [], None)
   \<and> updateContainerInfo ParseIP_nonempty (v6only_dd\<lparr>traefikResolver := None\<rparr>) v6onlyContainer
       = Some (v6only_dd\<lparr>traefikResolver := None, containerInfoMap := Map.empty\<rparr>, None)
   \<and> resolveDomainsByContainer v6only_dd dualStackContainer
       = ([''app.docker.loc''], [''app.homelab.net''], None)
   \<and> getContainerAddress ParseIP_nonempty v6only_dd dualStackContainer False
       = Some (Some ''172.18.0.7'', None)
   \<and> getContainerAddress ParseIP_nonempty v6only_dd dualStackContainer True
       = Some (Some ''fd00::5'', None)
   \<and> updateContainerInfo ParseIP_nonempty v6only_dd dualStackContainer
       = Some (v6only_dd\<lparr>containerInfoMap :=
                 [ID v6onlyContainer \<mapsto>
                    \<lparr>container = dualStackContainer, address = Some ''172.18.0.7'',
                     address6 = Some ''fd00::5'', domains = [''app.docker.loc''],
                     cnameDomains = [''app.homelab.net'']\<rparr>]\<rparr>,
               Some [''app.homelab.net''])"
proof -
  let ?dd = "v6only_dd\<lparr>traefikResolver := None\<rparr>"
  have r2: "resolveDomainsByContainer ?dd v6onlyContainer = ([''app.docker.loc''], [], None)"
    by (simp add: resolveDomainsByContainer_def v6only_dd_def v6onlyContainer_def
                  SubDomainContainerNameResolver_def normalizeContainerName_def)
  have a2: "getContainerAddress ParseIP_nonempty ?dd v6onlyContainer False = Some (None, None)"
    using v6only_v4 by (simp add: getContainerAddress_def)
  have u1: "updateContainerInfo ParseIP_nonempty v6only_dd v6onlyContainer
       = Some (v6only_dd\<lparr>containerInfoMap :=
                 [ID v6onlyContainer \<mapsto>
                    \<lparr>container = v6onlyContainer, address = None, address6 = None,
                     domains = [], cnameDomains = [''app.homelab.net'']\<rparr>]\<rparr>,
               Some [''app.homelab.net''])"
    using updateContainerInfo_domains
            [OF v6only_resolved, where ParseIP = ParseIP_nonempty and err = None] v6only_v4
    by (simp add: v6only_dd_def)
  have u2: "updateContainerInfo ParseIP_nonempty ?dd v6onlyContainer
       = Some (v6only_dd\<lparr>traefikResolver := None, containerInfoMap := Map.empty\<rparr>, None)"
    using updateContainerInfo_domains
            [OF r2, where ParseIP = ParseIP_nonempty and err = None] a2
    by (simp add: v6only_dd_def)
  have same_id: "ID dualStackContainer = ID v6onlyContainer"
    by (simp add: dualStackContainer_def)
  have u3: "updateContainerInfo ParseIP_nonempty v6only_dd dualStackContainer
       = Some (v6only_dd\<lparr>containerInfoMap :=
                 [ID v6onlyContainer \<mapsto>
                    \<lparr>container = dualStackContainer, address = Some ''172.18.0.7'',
                     address6 = Some ''fd00::5'', domains = [''app.docker.loc''],
                     cnameDomains = [''app.homelab.net'']\<rparr>]\<rparr>,
               Some [''app.homelab.net''])"
    using updateContainerInfo_domains
            [OF dualStack_resolved, where ParseIP = ParseIP_nonempty and err = None
               and a = "''172.18.0.7''" and ?a6.0 = "Some ''fd00::5''" and ?err6.0 = None]
          dualStack_v4 dualStack_v6
    by (simp add: same_id) (simp add: v6only_dd_def)
  have "containerInfoMap v6only_dd (ID v6onlyContainer) \<noteq> None"
    by (simp add: v6only_dd_def)
  then show ?thesis
    using v6only_resolved v6only_v4 u1 r2 u2 dualStack_resolved dualStack_v4 dualStack_v6 u3
    by simp
qed

lemma ServeDNS_AAAA_no_v6:
  assumes "QType r = TypeAAAA"
      and "containerInfoByDomain dd order (QName r) = Some res"
      and "address6 (containerInfo res) = None"
  shows "case ServeDNS dd order r of
           NextOrFailure \<Rightarrow> True
         | Wrote m rc \<Rightarrow> \<forall>rr \<in> set (Answer m). \<not> is_AAAA rr"
  using assms
  by (simp add: ServeDNS_def TypeA_def TypeAAAA_def SetReply_def Scrub_def getCNAMEAnswer_def)

text \<open>
  C10.  \<open>updateContainerInfo\<close> resolves the IPv6 address only when the IPv4
  address it resolved is not \<open>nil\<close>: when IPv4 resolution returns \<open>nil\<close> the
  function returns without the IPv6 resolution having any part in the result.
  Hence the entry it stores has an IPv6 address only if it has an IPv4 address,
  and the registry keeps that property.  A container whose IPv4 resolution
  yields \<open>nil\<close> is stored, if at all, with no address, no plain domain and at
  least one CNAME domain, and an AAAA query that finds this entry is never
  answered with an AAAA record.
\<close>

theorem v6_address_needs_v4:
  assumes "resolveDomainsByContainer dd c = (ds, cnames, e)"
  shows "(getContainerAddress ParseIP dd c False = Some (None, err) \<longrightarrow>
            (\<exists>dd1 sp1. updateContainerInfo ParseIP dd c = Some (dd1, sp1)))
       \<and> (updateContainerInfo ParseIP dd c = Some (dd', sp) \<longrightarrow>
            (v6_needs_v4 (containerInfoMap dd) \<longrightarrow> v6_needs_v4 (containerInfoMap dd'))
            \<and> (\<forall>ci. containerInfoMap dd' (ID c) = Some ci \<and> address6 ci \<noteq> None \<longrightarrow>
                     address ci \<noteq> None)
            \<and> (getContainerAddress ParseIP dd c False = Some (None, err) \<longrightarrow>
                 (\<forall>ci. containerInfoMap dd' (ID c) = Some ci \<longrightarrow>
                    address ci = None \<and> address6 ci = None \<and> domains ci = []
                    \<and> cnameDomains ci \<noteq> []
                    \<and> (\<forall>order r res.
                          QType r = TypeAAAA
                          \<and> containerInfoByDomain dd' order (QName r) = Some res
                          \<and> containerInfo res = ci \<longrightarrow>
                          (case ServeDNS dd' order r of
                             NextOrFailure \<Rightarrow> True
                           | Wrote m rc \<Rightarrow> \<forall>rr \<in> set (Answer m). \<not> is_AAAA rr)))))"
proof (intro conjI impI)
  assume "getContainerAddress ParseIP dd c False = Some (None, err)"
  then show "\<exists>dd1 sp1. updateContainerInfo ParseIP dd c = Some (dd1, sp1)"
    using updateContainerInfo_no_address [OF assms] by blast
next
  assume r: "updateContainerInfo ParseIP dd c = Some (dd', sp)"
  from assms r obtain a err' a6 where
      v4: "getContainerAddress ParseIP dd c False = Some (a, err')"
    and a6: "a = None \<longrightarrow> a6 = None"
    and m': "containerInfoMap dd' =
         (let ds' = (if a = None then [] else ds)
          in if ds' = [] \<and> cnames = [] then (containerInfoMap dd)(ID c := None)
             else (containerInfoMap dd)
                    (ID c \<mapsto> \<lparr>container = c, address = a, address6 = a6,
                               domains = ds', cnameDomains = cnames\<rparr>))"
    by (rule updateContainerInfo_cases)
  show entry: "\<forall>ci. containerInfoMap dd' (ID c) = Some ci \<and> address6 ci \<noteq> None \<longrightarrow>
                 address ci \<noteq> None"
    using a6 unfolding m' by (auto simp: Let_def split: if_splits)
  show "v6_needs_v4 (containerInfoMap dd')" if inv: "v6_needs_v4 (containerInfoMap dd)"
    unfolding v6_needs_v4_def
  proof
    fix ci assume "ci \<in> ran (containerInfoMap dd')"
    then obtain k where k: "containerInfoMap dd' k = Some ci"
      by (auto simp: ran_def)
    show "address6 ci \<noteq> None \<longrightarrow> address ci \<noteq> None"
    proof (cases "k = ID c")
      case True
      then show ?thesis using k entry by blast
    next
      case False
      then have "containerInfoMap dd k = Some ci"
        using k unfolding m' by (simp add: Let_def split: if_splits)
      then have "ci \<in> ran (containerInfoMap dd)"
        by (auto simp: ran_def)
      then show ?thesis using inv by (simp add: v6_needs_v4_def)
    qed
  qed
  show "\<forall>ci. containerInfoMap dd' (ID c) = Some ci \<longrightarrow>
          address ci = None \<and> address6 ci = None \<and> domains ci = []
          \<and> cnameDomains ci \<noteq> []
          \<and> (\<forall>order r res.
                QType r = TypeAAAA
                \<and> containerInfoByDomain dd' order (QName r) = Some res
                \<and> containerInfo res = ci \<longrightarrow>
                (case ServeDNS dd' order r of
                   NextOrFailure \<Rightarrow> True
                 | Wrote m rc \<Rightarrow> \<forall>rr \<in> set (Answer m). \<not> is_AAAA rr))"
    if nil: "getContainerAddress ParseIP dd c False = Some (None, err)"
  proof (intro allI impI)
    fix ci assume ci: "containerInfoMap dd' (ID c) = Some ci"
    have "a = None" using nil v4 by simp
    then have fields: "address ci = None \<and> address6 ci = None \<and> domains ci = []
                       \<and> cnameDomains ci \<noteq> []"
      using ci a6 unfolding m' by (auto simp: Let_def split: if_splits)
    have "case ServeDNS dd' order r of
            NextOrFailure \<Rightarrow> True
          | Wrote m rc \<Rightarrow> \<forall>rr \<in> set (Answer m). \<not> is_AAAA rr"
      if "QType r = TypeAAAA \<and> containerInfoByDomain dd' order (QName r) = Some res
          \<and> containerInfo res = ci" for order r res
      using that fields by (intro ServeDNS_AAAA_no_v6 [of r dd' order res]) simp_all
    then show "address ci = None \<and> address6 ci = None \<and> domains ci = []
          \<and> cnameDomains ci \<noteq> []
          \<and> (\<forall>order r res.
                QType r = TypeAAAA
                \<and> containerInfoByDomain dd' order (QName r) = Some res
                \<and> containerInfo res = ci \<longrightarrow>
                (case ServeDNS dd' order r of
                   NextOrFailure \<Rightarrow> True
                 | Wrote m rc \<Rightarrow> \<forall>rr \<in> set (Answer m). \<not> is_AAAA rr))"
      using fields by blast
  qed
qed

lemma v6only_update:
  "updateContainerInfo ParseIP_nonempty v6only_dd v6onlyContainer
     = Some (v6only_dd\<lparr>containerInfoMap :=
               [ID v6onlyContainer \<mapsto>
                  \<lparr>container = v6onlyContainer, address = None, address6 = None,
                   domains = [], cnameDomains = [''app.homelab.net'']\<rparr>]\<rparr>,
             Some [''app.homelab.net''])"
  using updateContainerInfo_no_address [OF v6only_resolved v6only_v4]
  by (simp add: v6only_dd_def)

theorem v6_address_needs_v4_witness:
  "getContainerAddress ParseIP_nonempty v6only_dd v6onlyContainer False = Some (None, None)
   \<and> getContainerAddress ParseIP_nonempty v6only_dd v6onlyContainer True
       = Some (Some ''fd00::5'', None)
   \<and> v6_needs_v4 (containerInfoMap v6only_dd)
   \<and> (\<exists>dd' sp ci.
         updateContainerInfo ParseIP_nonempty v6only_dd v6onlyContainer = Some (dd', sp)
         \<and> v6_needs_v4 (containerInfoMap dd')
         \<and> containerInfoMap dd' (ID v6onlyContainer) = Some ci
         \<and> address ci = None \<and> address6 ci = None \<and> domains ci = []
         \<and> cnameDomains ci = [''app.homelab.net'']
         \<and> containerInfoByDomain dd' [ID v6onlyContainer] ''app.homelab.net.''
             = Some \<lparr>containerInfo = ci, isCNAME = True\<rparr>
         \<and> ServeDNS dd' [ID v6onlyContainer]
              \<lparr>QType = TypeAAAA, QName = ''app.homelab.net.'', ReqName = ''app.homelab.net.''\<rparr>
            = Wrote \<lparr>Response = True, Authoritative = True, RecursionAvailable = False,
                     Compress = False, Rcode = RcodeSuccess,
                     Answer = [CNAME_RR ''app.homelab.net.'' 3600 ''traefik.homelab.net.'']\<rparr>
                RcodeSuccess)"
proof -
  let ?ci = "\<lparr>container = v6onlyContainer, address = None, address6 = None,
              domains = [], cnameDomains = [''app.homelab.net'']\<rparr>"
  let ?dd' = "v6only_dd\<lparr>containerInfoMap := [ID v6onlyContainer \<mapsto> ?ci]\<rparr>"
  let ?r = "\<lparr>QType = TypeAAAA, QName = ''app.homelab.net.'', ReqName = ''app.homelab.net.''\<rparr>"
  have inv0: "v6_needs_v4 (containerInfoMap v6only_dd)"
    by (simp add: v6_needs_v4_def v6only_dd_def)
  have stored: "containerInfoMap ?dd' (ID v6onlyContainer) = Some ?ci"
    by simp
  note inst = v6_address_needs_v4 [OF v6only_resolved, of ParseIP_nonempty None ?dd'
                                   "Some [''app.homelab.net'']"]
  have inv1: "v6_needs_v4 (containerInfoMap ?dd')"
    using inst v6only_update inv0 by blast
  have fields: "address ?ci = None \<and> address6 ?ci = None \<and> domains ?ci = []"
    using inst v6only_update v6only_v4 stored by blast
  have lookup: "containerInfoByDomain ?dd' [ID v6onlyContainer] ''app.homelab.net.''
                  = Some \<lparr>containerInfo = ?ci, isCNAME = True\<rparr>"
    by (simp add: containerInfoByDomain_def)
  have served: "ServeDNS ?dd' [ID v6onlyContainer] ?r
            = Wrote \<lparr>Response = True, Authoritative = True, RecursionAvailable = False,
                     Compress = False, Rcode = RcodeSuccess,
                     Answer = [CNAME_RR ''app.homelab.net.'' 3600 ''traefik.homelab.net.'']\<rparr>
                RcodeSuccess"
    by (simp add: ServeDNS_def lookup SetReply_def Scrub_def TypeA_def TypeAAAA_def getCNAMEAnswer_def
                  HasSuffix_def)
       (simp add: v6only_dd_def)
  show ?thesis
    using v6only_v4 v6only_v6 inv0 v6only_update inv1 stored fields lookup served
    by (intro conjI exI [of _ ?dd'] exI [of _ "Some [''app.homelab.net'']"] exI [of _ ?ci])
       simp_all
qed

section \<open>Properties of the zone lookup\<close>

lemma findZone_loop_char:
  "(findZone_loop zs d bm bz = bz
      \<and> (\<forall>z \<in> set zs. zone_matches d (ZoneDomain z) \<longrightarrow> length (ZoneDomain z) \<le> length bm))
   \<or> (\<exists>z \<in> set zs. zone_matches d (ZoneDomain z) \<and> length bm < length (ZoneDomain z)
         \<and> findZone_loop zs d bm bz = ZoneID z
         \<and> (\<forall>z' \<in> set zs. zone_matches d (ZoneDomain z') \<longrightarrow>
               length (ZoneDomain z') \<le> length (ZoneDomain z)))"
proof (induction zs arbitrary: bm bz)
  case Nil
  show ?case by simp
next
  case (Cons zone zs)
  show ?case
  proof (cases "zone_matches d (ZoneDomain zone) \<and> length bm < length (ZoneDomain zone)")
    case True
    then have step: "findZone_loop (zone # zs) d bm bz
                       = findZone_loop zs d (ZoneDomain zone) (ZoneID zone)"
      by (simp add: zone_matches_def)
    from Cons.IH [of "ZoneDomain zone" "ZoneID zone"] show ?thesis
    proof
      assume "findZone_loop zs d (ZoneDomain zone) (ZoneID zone) = ZoneID zone
        \<and> (\<forall>z \<in> set zs. zone_matches d (ZoneDomain z) \<longrightarrow>
              length (ZoneDomain z) \<le> length (ZoneDomain zone))"
      then show ?thesis using True step by auto
    next
      assume "\<exists>z \<in> set zs. zone_matches d (ZoneDomain z) \<and> length (ZoneDomain zone) < length (ZoneDomain z)
         \<and> findZone_loop zs d (ZoneDomain zone) (ZoneID zone) = ZoneID z
         \<and> (\<forall>z' \<in> set zs. zone_matches d (ZoneDomain z') \<longrightarrow>
               length (ZoneDomain z') \<le> length (ZoneDomain z))"
      then obtain z where z: "z \<in> set zs" "zone_matches d (ZoneDomain z)"
          "length (ZoneDomain zone) < length (ZoneDomain z)"
          "findZone_loop zs d (ZoneDomain zone) (ZoneID zone) = ZoneID z"
          "\<forall>z' \<in> set zs. zone_matches d (ZoneDomain z') \<longrightarrow> length (ZoneDomain z') \<le> length (ZoneDomain z)"
        by blast
      have "\<exists>z \<in> set (zone # zs). zone_matches d (ZoneDomain z) \<and> length bm < length (ZoneDomain z)
         \<and> findZone_loop (zone # zs) d bm bz = ZoneID z
         \<and> (\<forall>z' \<in> set (zone # zs). zone_matches d (ZoneDomain z') \<longrightarrow>
               length (ZoneDomain z') \<le> length (ZoneDomain z))"
        using z True step by (intro bexI [of _ z]) auto
      then show ?thesis by blast
    qed
  next
    case False
    then have step: "findZone_loop (zone # zs) d bm bz = findZone_loop zs d bm bz"
      by (auto simp: zone_matches_def)
    from Cons.IH [of bm bz] show ?thesis
    proof
      assume "findZone_loop zs d bm bz = bz
        \<and> (\<forall>z \<in> set zs. zone_matches d (ZoneDomain z) \<longrightarrow> length (ZoneDomain z) \<le> length bm)"
      then show ?thesis using False step by auto
    next
      assume "\<exists>z \<in> set zs. zone_matches d (ZoneDomain z) \<and> length bm < length (ZoneDomain z)
         \<and> findZone_loop zs d bm bz = ZoneID z
         \<and> (\<forall>z' \<in> set zs. zone_matches d (ZoneDomain z') \<longrightarrow>
               length (ZoneDomain z') \<le> length (ZoneDomain z))"
      then obtain z where z: "z \<in> set zs" "zone_matches d (ZoneDomain z)"
          "length bm < length (ZoneDomain z)"
          "findZone_loop zs d bm bz = ZoneID z"
          "\<forall>z' \<in> set zs. zone_matches d (ZoneDomain z') \<longrightarrow> length (ZoneDomain z') \<le> length (ZoneDomain z)"
        by blast
      have "\<exists>z \<in> set (zone # zs). zone_matches d (ZoneDomain z) \<and> length bm < length (ZoneDomain z)
         \<and> findZone_loop (zone # zs) d bm bz = ZoneID z
         \<and> (\<forall>z' \<in> set (zone # zs). zone_matches d (ZoneDomain z') \<longrightarrow>
               length (ZoneDomain z') \<le> length (ZoneDomain z))"
        using z False step by (intro bexI [of _ z]) auto
      then show ?thesis by blast
    qed
  qed
qed

lemma index_suffix_test:
  "(length d > length zd \<and> d ! (length d - length zd - 1) = CHR ''.''
      \<and> drop (length d - length zd) d = zd)
   \<longleftrightarrow> HasSuffix d (''.'' @ zd)"
proof (cases "length zd < length d")
  case False
  then have "\<not> HasSuffix d (''.'' @ zd)"
    unfolding HasSuffix_def by simp
  then show ?thesis using False by blast
next
  case True
  define n where "n = length d - length zd - 1"
  have n: "n < length d" and s: "Suc n = length d - length zd"
    and n': "length d - length (''.'' @ zd) = n"
    using True by (simp_all add: n_def)
  have split: "drop n d = d ! n # drop (length d - length zd) d"
    using n s Cons_nth_drop_Suc [of n d] by simp
  have "HasSuffix d (''.'' @ zd) \<longleftrightarrow> drop n d = ''.'' @ zd"
    unfolding HasSuffix_def n' using True by simp
  also have "\<dots> \<longleftrightarrow> d ! n # drop (length d - length zd) d = CHR ''.'' # zd"
    unfolding split by simp
  also have "\<dots> \<longleftrightarrow> d ! n = CHR ''.'' \<and> drop (length d - length zd) d = zd"
    by simp
  finally show ?thesis using True unfolding n_def by blast
qed


lemma tunnel_findZone_loop_eq:
  "tunnel_findZone_loop zs d bm bz = findZone_loop zs d bm bz"
proof (induction zs arbitrary: bm bz)
  case Nil
  show ?case by simp
next
  case (Cons zone zs)
  show ?case
    unfolding tunnel_findZone_loop.simps findZone_loop.simps index_suffix_test
    by (simp only: Cons.IH)
qed

lemma no_zone_skipped:
  assumes "findZoneForDomain cfg d = []"
  shows "SyncDomains api cfg [d] w = w" and "RemoveDomains api cfg [d] w = w"
    and "upsertTunnelDNS api cfg d target w = w" and "deleteTunnelDNS api cfg d w = w"
proof -
  have t: "tunnel_findZoneForDomain cfg d = []"
    using assms
    by (simp add: tunnel_findZoneForDomain_def findZoneForDomain_def tunnel_findZone_loop_eq)
  show "SyncDomains api cfg [d] w = w" using assms by simp
  show "RemoveDomains api cfg [d] w = w" using assms by simp
  show "upsertTunnelDNS api cfg d target w = w" by (simp add: upsertTunnelDNS_def t)
  show "deleteTunnelDNS api cfg d w = w" by (simp add: deleteTunnelDNS_def t)
qed

text \<open>
  C4 as stated fails on a zone list with an empty suffix.  The empty suffix
  matches the domain \<open>app.\<close> (the domain ends with a dot followed by nothing)
  and is the only configured suffix, so it is the longest match and its zone ID
  is \<open>Z0\<close>; \<open>findZoneForDomain\<close> returns the empty zone ID, because a match
  replaces the best match so far only if it is strictly longer, and the best
  match is empty at the start.
\<close>

theorem findZoneForDomain_empty_suffix:
  "zone_matches ''app.'' [] \<and> Zones zones_empty_suffix = [\<lparr>ZoneDomain = [], ZoneID = ''Z0''\<rparr>]
   \<and> findZoneForDomain zones_empty_suffix ''app.'' = []
   \<and> findZoneForDomain zones_empty_suffix ''app.'' \<noteq> ''Z0''
   \<and> tunnel_findZoneForDomain zones_empty_suffix ''app.'' = []"
  by (simp add: zone_matches_def HasSuffix_def zones_empty_suffix_def findZoneForDomain_def
                tunnel_findZoneForDomain_def)

text \<open>
  C4, amended.  Both \<open>findZoneForDomain\<close> functions compute the same zone ID.
  If no configured suffix other than the empty one matches the domain, the
  result is the empty zone ID and the domain is skipped: \<open>SyncDomains\<close>,
  \<open>RemoveDomains\<close> and the two tunnel DNS functions leave the provider and the
  list of calls as they were.  If a non-empty configured suffix matches, the
  result is the zone ID of a matching configured suffix that no matching
  configured suffix exceeds in length.  With the zones \<open>net \<rightarrow> Z1\<close> and
  \<open>homelab.net \<rightarrow> Z2\<close>, the domain \<open>app.homelab.net\<close> gets \<open>Z2\<close>.
\<close>

theorem findZoneForDomain_longest_suffix:
  "tunnel_findZoneForDomain cfg domain = findZoneForDomain cfg domain
   \<and> ((\<forall>z \<in> set (Zones cfg). zone_matches domain (ZoneDomain z) \<longrightarrow> ZoneDomain z = []) \<longrightarrow>
        findZoneForDomain cfg domain = []
        \<and> SyncDomains api cfg [domain] w = w \<and> RemoveDomains api cfg [domain] w = w
        \<and> upsertTunnelDNS api cfg domain target w = w \<and> deleteTunnelDNS api cfg domain w = w)
   \<and> ((\<exists>z \<in> set (Zones cfg). zone_matches domain (ZoneDomain z) \<and> ZoneDomain z \<noteq> []) \<longrightarrow>
        (\<exists>z \<in> set (Zones cfg). zone_matches domain (ZoneDomain z)
            \<and> findZoneForDomain cfg domain = ZoneID z
            \<and> (\<forall>z' \<in> set (Zones cfg). zone_matches domain (ZoneDomain z') \<longrightarrow>
                  length (ZoneDomain z') \<le> length (ZoneDomain z))))
   \<and> findZoneForDomain zones_example ''app.homelab.net'' = ''Z2''"
proof (intro conjI impI)
  show "tunnel_findZoneForDomain cfg domain = findZoneForDomain cfg domain"
    by (simp add: tunnel_findZoneForDomain_def findZoneForDomain_def tunnel_findZone_loop_eq)
  show "findZoneForDomain zones_example ''app.homelab.net'' = ''Z2''"
    by (simp add: findZoneForDomain_def zones_example_def HasSuffix_def)
  note char = findZone_loop_char [of "Zones cfg" domain "[]" "[]"]
  {
    assume none: "\<forall>z \<in> set (Zones cfg). zone_matches domain (ZoneDomain z) \<longrightarrow> ZoneDomain z = []"
    show z: "findZoneForDomain cfg domain = []"
      using char none unfolding findZoneForDomain_def by fastforce
    show "SyncDomains api cfg [domain] w = w" using z by (rule no_zone_skipped)
    show "RemoveDomains api cfg [domain] w = w" using z by (rule no_zone_skipped)
    show "upsertTunnelDNS api cfg domain target w = w" using z by (rule no_zone_skipped)
    show "deleteTunnelDNS api cfg domain w = w" using z by (rule no_zone_skipped)
  }
  {
    assume "\<exists>z \<in> set (Zones cfg). zone_matches domain (ZoneDomain z) \<and> ZoneDomain z \<noteq> []"
    then have "\<not> (\<forall>z \<in> set (Zones cfg). zone_matches domain (ZoneDomain z) \<longrightarrow>
                     length (ZoneDomain z) \<le> length ([]::string))"
      by auto
    then show "\<exists>z \<in> set (Zones cfg). zone_matches domain (ZoneDomain z)
            \<and> findZoneForDomain cfg domain = ZoneID z
            \<and> (\<forall>z' \<in> set (Zones cfg). zone_matches domain (ZoneDomain z') \<longrightarrow>
                  length (ZoneDomain z') \<le> length (ZoneDomain z))"
      using char unfolding findZoneForDomain_def by blast
  }
qed

theorem findZoneForDomain_longest_suffix_witness:
  "\<lparr>ZoneDomain = ''homelab.net'', ZoneID = ''Z2''\<rparr> \<in> set (Zones zones_example)
   \<and> zone_matches ''app.homelab.net'' ''homelab.net''
   \<and> zone_matches ''app.homelab.net'' ''net''
   \<and> findZoneForDomain zones_example ''app.homelab.net'' = ''Z2''
   \<and> tunnel_findZoneForDomain zones_example ''app.homelab.net'' = ''Z2''
   \<and> \<not> zone_matches ''app.example.org'' ''homelab.net''
   \<and> \<not> zone_matches ''app.example.org'' ''net''
   \<and> findZoneForDomain zones_example ''app.example.org'' = []
   \<and> SyncDomains mockAPI zones_example [''app.example.org''] (newMockCloudflareAPI, [])
       = (newMockCloudflareAPI, [])"
proof -
  have m: "zone_matches ''app.homelab.net'' ''homelab.net''"
          "zone_matches ''app.homelab.net'' ''net''"
          "\<not> zone_matches ''app.example.org'' ''homelab.net''"
          "\<not> zone_matches ''app.example.org'' ''net''"
    by (simp_all add: zone_matches_def HasSuffix_def)
  have none: "\<forall>z \<in> set (Zones zones_example).
                 zone_matches ''app.example.org'' (ZoneDomain z) \<longrightarrow> ZoneDomain z = []"
    using m by (simp add: zones_example_def)
  note a = findZoneForDomain_longest_suffix
             [of zones_example "''app.homelab.net''" mockAPI "(newMockCloudflareAPI, [])"]
  note b = findZoneForDomain_longest_suffix
             [of zones_example "''app.example.org''" mockAPI "(newMockCloudflareAPI, [])"]
  have z2: "findZoneForDomain zones_example ''app.homelab.net'' = ''Z2''"
    using a by blast
  have t2: "tunnel_findZoneForDomain zones_example ''app.homelab.net'' = ''Z2''"
    using a by simp
  have skip: "findZoneForDomain zones_example ''app.example.org'' = []"
    "SyncDomains mockAPI zones_example [''app.example.org''] (newMockCloudflareAPI, [])
       = (newMockCloudflareAPI, [])"
    using b none by blast+
  show ?thesis using m z2 t2 skip by (simp add: zones_example_def)
qed

section \<open>Excluded names\<close>

lemma invoke_calls: "snd (snd (invoke method call w)) = snd w @ [call]"
  by (simp add: invoke_def split: prod.split)

lemma SyncDomains_filter:
  "SyncDomains api cf ds w = SyncDomains api cf (filter (\<lambda>d. \<not> ExcludeDomains cf d) ds) w"
  by (induction ds arbitrary: w) (simp_all add: Let_def)

lemma RemoveDomains_filter:
  "RemoveDomains api cf ds w = RemoveDomains api cf (filter (\<lambda>d. \<not> ExcludeDomains cf d) ds) w"
  by (induction ds arbitrary: w) (simp_all add: Let_def)

lemma add_rules_filter:
  "add_rules cf hs url ing m = add_rules cf (filter (\<lambda>d. \<not> ExcludeDomains cf d) hs) url ing m"
  by (induction hs arbitrary: ing m) (simp_all add: Let_def split: prod.split)

lemma upsert_dns_loop_filter:
  "upsert_dns_loop api cf hs t w
     = upsert_dns_loop api cf (filter (\<lambda>d. \<not> ExcludeDomains cf d) hs) t w"
  by (induction hs arbitrary: w) simp_all

lemma delete_dns_loop_filter:
  "delete_dns_loop api cf hs w
     = delete_dns_loop api cf (filter (\<lambda>d. \<not> ExcludeDomains cf d) hs) w"
  by (induction hs arbitrary: w) simp_all

lemma build_removeSet_filter:
  "build_removeSet cf hs rs = build_removeSet cf (filter (\<lambda>d. \<not> ExcludeDomains cf d) hs) rs"
  by (induction hs arbitrary: rs) simp_all

lemma AddRoutes_filter:
  "AddRoutes api tunnel cf hs url w
     = AddRoutes api tunnel cf (filter (\<lambda>d. \<not> ExcludeDomains cf d) hs) url w"
  unfolding AddRoutes_def
  by (simp only: add_rules_filter [symmetric] upsert_dns_loop_filter [symmetric])

lemma RemoveRoutes_filter:
  "RemoveRoutes api tunnel cf hs w
     = RemoveRoutes api tunnel cf (filter (\<lambda>d. \<not> ExcludeDomains cf d) hs) w"
  unfolding RemoveRoutes_def
  by (simp only: build_removeSet_filter [symmetric] delete_dns_loop_filter [symmetric])

lemma invoke_split:
  "invoke method call w = (fst (method (fst w)), (snd (method (fst w)), snd w @ [call]))"
  by (simp add: invoke_def split: prod.split)

lemma upsertRecord_calls:
  "set (snd (snd (upsertRecord api cf z d w))) \<subseteq> set (snd w) \<union> {c. dns_call_for d c}"
  by (auto simp: upsertRecord_def invoke_split cname_filter_def cname_record_def Let_def
           split: sum.splits)

lemma delete_each_calls:
  "set (snd (snd (delete_each api z recs w))) \<subseteq> set (snd w) \<union> {c. dns_call_for d c}"
proof (induction recs arbitrary: w)
  case Nil
  show ?case by simp
next
  case (Cons r recs)
  show ?case
    using Cons.IH [of "(snd (DeleteDNSRecord api z (rec_ID r) (fst w)), snd w @ [DeleteCall z (rec_ID r)])"]
    by (auto simp: invoke_split split: option.splits)
qed

lemma deleteRecord_calls:
  "set (snd (snd (deleteRecord api z d w))) \<subseteq> set (snd w) \<union> {c. dns_call_for d c}"
proof (cases "fst (ListDNSRecords api z (cname_filter d) (fst w))")
  case (Inl e)
  then show ?thesis
    by (auto simp: deleteRecord_def invoke_split cname_filter_def)
next
  case (Inr existing)
  let ?w1 = "(snd (ListDNSRecords api z (cname_filter d) (fst w)),
              snd w @ [ListCall z (cname_filter d)])"
  have "deleteRecord api z d w = delete_each api z existing ?w1"
    using Inr by (simp add: deleteRecord_def invoke_split)
  moreover have "set (snd (snd (delete_each api z existing ?w1)))
                   \<subseteq> set (snd ?w1) \<union> {c. dns_call_for d c}"
    by (rule delete_each_calls)
  moreover have "dns_call_for d (ListCall z (cname_filter d))"
    by (simp add: cname_filter_def)
  ultimately show ?thesis by auto
qed

lemma delete_each_logged_calls:
  "set (snd (delete_each_logged api z recs w)) \<subseteq> set (snd w) \<union> {c. dns_call_for d c}"
proof (induction recs arbitrary: w)
  case Nil
  show ?case by simp
next
  case (Cons r recs)
  show ?case
    using Cons.IH [of "snd (invoke (DeleteDNSRecord api z (rec_ID r)) (DeleteCall z (rec_ID r)) w)"]
    by (auto simp: invoke_split)
qed

lemma upsertTunnelDNS_calls:
  "set (snd (upsertTunnelDNS api cf d t w)) \<subseteq> set (snd w) \<union> {c. dns_call_for d c}"
  by (auto simp: upsertTunnelDNS_def invoke_split cname_filter_def cname_record_def Let_def
           split: sum.splits)

lemma deleteTunnelDNS_calls:
  "set (snd (deleteTunnelDNS api cf d w)) \<subseteq> set (snd w) \<union> {c. dns_call_for d c}"
proof (cases "tunnel_findZoneForDomain cf d = []")
  case True
  then show ?thesis by (simp add: deleteTunnelDNS_def)
next
  case zone: False
  let ?z = "tunnel_findZoneForDomain cf d"
  show ?thesis
  proof (cases "fst (ListDNSRecords api ?z (cname_filter d) (fst w))")
    case (Inl e)
    then show ?thesis
      using zone by (auto simp: deleteTunnelDNS_def invoke_split cname_filter_def Let_def)
  next
    case (Inr existing)
    let ?w1 = "(snd (ListDNSRecords api ?z (cname_filter d) (fst w)),
                snd w @ [ListCall ?z (cname_filter d)])"
    have "deleteTunnelDNS api cf d w = delete_each_logged api ?z existing ?w1"
      using Inr zone by (simp add: deleteTunnelDNS_def invoke_split Let_def)
    moreover have "set (snd (delete_each_logged api ?z existing ?w1))
                     \<subseteq> set (snd ?w1) \<union> {c. dns_call_for d c}"
      by (rule delete_each_logged_calls)
    moreover have "dns_call_for d (ListCall ?z (cname_filter d))"
      by (simp add: cname_filter_def)
    ultimately show ?thesis by auto
  qed
qed

lemma dns_call_ok: "dns_call_for d c \<Longrightarrow> \<not> ExcludeDomains cf d \<Longrightarrow> call_ok cf fetched c"
  by (cases c) auto

lemma SyncDomains_ok:
  "\<forall>c \<in> set (snd w). call_ok cf fetched c
   \<Longrightarrow> \<forall>c \<in> set (snd (SyncDomains api cf ds w)). call_ok cf fetched c"
proof (induction ds arbitrary: w)
  case Nil
  then show ?case by simp
next
  case (Cons d ds)
  show ?case
  proof (cases "ExcludeDomains cf d \<or> findZoneForDomain cf d = []")
    case True
    then show ?thesis using Cons by (auto simp: Let_def)
  next
    case False
    let ?w = "snd (upsertRecord api cf (findZoneForDomain cf d) d w)"
    have "\<forall>c \<in> set (snd ?w). call_ok cf fetched c"
      using upsertRecord_calls [of api cf "findZoneForDomain cf d" d w] Cons.prems False
            dns_call_ok [of d _ cf fetched]
      by blast
    then have "\<forall>c \<in> set (snd (SyncDomains api cf ds ?w)). call_ok cf fetched c"
      by (rule Cons.IH)
    then show ?thesis using False by (simp add: Let_def)
  qed
qed

lemma RemoveDomains_ok:
  "\<forall>c \<in> set (snd w). call_ok cf fetched c
   \<Longrightarrow> \<forall>c \<in> set (snd (RemoveDomains api cf ds w)). call_ok cf fetched c"
proof (induction ds arbitrary: w)
  case Nil
  then show ?case by simp
next
  case (Cons d ds)
  show ?case
  proof (cases "ExcludeDomains cf d \<or> findZoneForDomain cf d = []")
    case True
    then show ?thesis using Cons by (auto simp: Let_def)
  next
    case False
    let ?w = "snd (deleteRecord api (findZoneForDomain cf d) d w)"
    have "\<forall>c \<in> set (snd ?w). call_ok cf fetched c"
      using deleteRecord_calls [of api "findZoneForDomain cf d" d w] Cons.prems False
            dns_call_ok [of d _ cf fetched]
      by blast
    then have "\<forall>c \<in> set (snd (RemoveDomains api cf ds ?w)). call_ok cf fetched c"
      by (rule Cons.IH)
    then show ?thesis using False by (simp add: Let_def)
  qed
qed

lemma upsert_dns_loop_ok:
  "\<forall>c \<in> set (snd w). call_ok cf fetched c
   \<Longrightarrow> \<forall>c \<in> set (snd (upsert_dns_loop api cf hs t w)). call_ok cf fetched c"
proof (induction hs arbitrary: w)
  case Nil
  then show ?case by simp
next
  case (Cons h hs)
  show ?case
  proof (cases "ExcludeDomains cf h")
    case True
    then show ?thesis using Cons by simp
  next
    case False
    have "\<forall>c \<in> set (snd (upsertTunnelDNS api cf h t w)). call_ok cf fetched c"
      using upsertTunnelDNS_calls [of api cf h t w] Cons.prems False
            dns_call_ok [of h _ cf fetched]
      by blast
    then have "\<forall>c \<in> set (snd (upsert_dns_loop api cf hs t (upsertTunnelDNS api cf h t w))).
                 call_ok cf fetched c"
      by (rule Cons.IH)
    then show ?thesis using False by simp
  qed
qed

lemma delete_dns_loop_ok:
  "\<forall>c \<in> set (snd w). call_ok cf fetched c
   \<Longrightarrow> \<forall>c \<in> set (snd (delete_dns_loop api cf hs w)). call_ok cf fetched c"
proof (induction hs arbitrary: w)
  case Nil
  then show ?case by simp
next
  case (Cons h hs)
  show ?case
  proof (cases "ExcludeDomains cf h")
    case True
    then show ?thesis using Cons by simp
  next
    case False
    have "\<forall>c \<in> set (snd (deleteTunnelDNS api cf h w)). call_ok cf fetched c"
      using deleteTunnelDNS_calls [of api cf h w] Cons.prems False
            dns_call_ok [of h _ cf fetched]
      by blast
    then have "\<forall>c \<in> set (snd (delete_dns_loop api cf hs (deleteTunnelDNS api cf h w))).
                 call_ok cf fetched c"
      by (rule Cons.IH)
    then show ?thesis using False by simp
  qed
qed

lemma excluded_rules_kept_trans:
  "excluded_rules_kept cf a b \<Longrightarrow> excluded_rules_kept cf b c \<Longrightarrow> excluded_rules_kept cf a c"
  unfolding excluded_rules_kept_def by blast

lemma update_existing_kept:
  "\<not> ExcludeDomains cf h \<Longrightarrow> excluded_rules_kept cf ing (fst (update_existing ing h url))"
proof (induction ing)
  case Nil
  show ?case by (simp add: excluded_rules_kept_def)
next
  case (Cons rule rules)
  then have "excluded_rules_kept cf rules (fst (update_existing rules h url))"
    by simp
  then show ?case
    using Cons.prems
    by (auto simp: excluded_rules_kept_def split: prod.splits)
qed

lemma set_insert_before_last:
  "xs \<noteq> [] \<Longrightarrow> set (butlast xs @ [x, last xs]) = insert x (set xs)"
proof -
  assume "xs \<noteq> []"
  then have "xs = butlast xs @ [last xs]" by simp
  then have "set xs = set (butlast xs) \<union> {last xs}"
    by (metis set_append list.set(1) list.set(2))
  then show ?thesis by auto
qed

lemma add_rules_kept:
  "excluded_rules_kept cf ing (fst (add_rules cf hs url ing m))"
proof (induction hs arbitrary: ing m)
  case Nil
  show ?case by (simp add: excluded_rules_kept_def)
next
  case (Cons h hs)
  show ?case
  proof (cases "ExcludeDomains cf h")
    case True
    then show ?thesis using Cons.IH by simp
  next
    case False
    obtain ing1 e ch where u: "update_existing ing h url = (ing1, e, ch)"
      by (cases "update_existing ing h url") auto
    have k1: "excluded_rules_kept cf ing ing1"
      using update_existing_kept [OF False, of ing url] u by simp
    let ?new = "\<lparr>Hostname = h, Path = [], Service = url\<rparr>"
    show ?thesis
    proof (cases e)
      case True
      then have "add_rules cf (h # hs) url ing m = add_rules cf hs url ing1 (m \<or> ch)"
        using False u by simp
      then show ?thesis
        using excluded_rules_kept_trans [OF k1 Cons.IH [of ing1 "m \<or> ch"]] by simp
    next
      case absent: False
      show ?thesis
      proof (cases "ing1 = []")
        case True
        have k2: "excluded_rules_kept cf ing1 (ing1 @ [?new, catch_all])"
          using True \<open>\<not> ExcludeDomains cf h\<close> by (simp add: excluded_rules_kept_def)
        have "add_rules cf (h # hs) url ing m
                = add_rules cf hs url (ing1 @ [?new, catch_all]) True"
          using \<open>\<not> ExcludeDomains cf h\<close> u absent True by simp
        then show ?thesis
          using excluded_rules_kept_trans
                  [OF excluded_rules_kept_trans [OF k1 k2]
                      Cons.IH [of "ing1 @ [?new, catch_all]" True]]
          by simp
      next
        case False
        have k2: "excluded_rules_kept cf ing1 (butlast ing1 @ [?new, last ing1])"
          using \<open>\<not> ExcludeDomains cf h\<close> set_insert_before_last [OF False, of ?new]
          by (simp add: excluded_rules_kept_def)
        have "add_rules cf (h # hs) url ing m
                = add_rules cf hs url (butlast ing1 @ [?new, last ing1]) True"
          using \<open>\<not> ExcludeDomains cf h\<close> u absent False by simp
        then show ?thesis
          using excluded_rules_kept_trans
                  [OF excluded_rules_kept_trans [OF k1 k2]
                      Cons.IH [of "butlast ing1 @ [?new, last ing1]" True]]
          by simp
      qed
    qed
  qed
qed

lemma filter_rules_eq:
  "filter_rules rules rs filtered m
     = (filtered @ filter (\<lambda>r. \<not> rs (Hostname r)) rules,
        m \<or> (\<exists>r \<in> set rules. rs (Hostname r)))"
  by (induction rules arbitrary: filtered m) auto

lemma build_removeSet_iff:
  "build_removeSet cf hs rs h \<longleftrightarrow> rs h \<or> (h \<in> set hs \<and> \<not> ExcludeDomains cf h)"
  by (induction hs arbitrary: rs) auto

lemma filter_rules_kept:
  "excluded_rules_kept cf ing
     (fst (filter_rules ing (build_removeSet cf hs (\<lambda>h. False)) [] False))"
  by (auto simp: filter_rules_eq build_removeSet_iff excluded_rules_kept_def)

lemma AddRoutes_ok:
  assumes get: "fst (GetTunnelConfiguration api (AccountID tunnel) (TunnelID tunnel) (fst w))
                  = Inr result"
      and before: "\<forall>c \<in> set (snd w). call_ok cf (Ingress result) c"
  shows "\<forall>c \<in> set (snd (AddRoutes api tunnel cf hs url w)). call_ok cf (Ingress result) c"
proof -
  let ?get = "GetTunnelConfiguration api (AccountID tunnel) (TunnelID tunnel) (fst w)"
  let ?w1 = "(snd ?get, snd w @ [GetTunnelCall (AccountID tunnel) (TunnelID tunnel)])"
  obtain ingress modified where
    ar: "add_rules cf hs url (Ingress result) False = (ingress, modified)"
    by (cases "add_rules cf hs url (Ingress result) False") auto
  let ?config = "\<lparr>Ingress = ingress, WarpRouting = WarpRouting result,
                   OriginRequest = OriginRequest result\<rparr>"
  let ?put = "UpdateTunnelConfiguration api (AccountID tunnel) (TunnelID tunnel) ?config (fst ?w1)"
  let ?w2 = "(snd ?put, snd ?w1 @ [PutTunnelCall (AccountID tunnel) (TunnelID tunnel) ?config])"
  let ?target = "TunnelID tunnel @ ''.cfargotunnel.com''"
  have kept: "excluded_rules_kept cf (Ingress result) ingress"
    using add_rules_kept [of cf "Ingress result" hs url False] ar by simp
  have ok1: "\<forall>c \<in> set (snd ?w1). call_ok cf (Ingress result) c"
    using before by simp
  have ok2: "\<forall>c \<in> set (snd ?w2). call_ok cf (Ingress result) c"
    using before kept by simp
  have cases: "AddRoutes api tunnel cf hs url w = ?w2
             \<or> AddRoutes api tunnel cf hs url w = upsert_dns_loop api cf hs ?target ?w2
             \<or> AddRoutes api tunnel cf hs url w = upsert_dns_loop api cf hs ?target ?w1"
    using get ar
    by (cases modified; cases "fst ?put")
       (simp_all add: AddRoutes_def invoke_split Let_def)
  then show ?thesis
    using ok2 upsert_dns_loop_ok [OF ok2] upsert_dns_loop_ok [OF ok1] by metis
qed

lemma RemoveRoutes_ok:
  assumes get: "fst (GetTunnelConfiguration api (AccountID tunnel) (TunnelID tunnel) (fst w))
                  = Inr result"
      and before: "\<forall>c \<in> set (snd w). call_ok cf (Ingress result) c"
  shows "\<forall>c \<in> set (snd (RemoveRoutes api tunnel cf hs w)). call_ok cf (Ingress result) c"
proof -
  let ?get = "GetTunnelConfiguration api (AccountID tunnel) (TunnelID tunnel) (fst w)"
  let ?w1 = "(snd ?get, snd w @ [GetTunnelCall (AccountID tunnel) (TunnelID tunnel)])"
  obtain filtered modified where
    fr: "filter_rules (Ingress result) (build_removeSet cf hs (\<lambda>h. False)) [] False
           = (filtered, modified)"
    by (cases "filter_rules (Ingress result) (build_removeSet cf hs (\<lambda>h. False)) [] False") auto
  let ?config = "\<lparr>Ingress = filtered, WarpRouting = WarpRouting result,
                   OriginRequest = OriginRequest result\<rparr>"
  let ?put = "UpdateTunnelConfiguration api (AccountID tunnel) (TunnelID tunnel) ?config (fst ?w1)"
  let ?w2 = "(snd ?put, snd ?w1 @ [PutTunnelCall (AccountID tunnel) (TunnelID tunnel) ?config])"
  have kept: "excluded_rules_kept cf (Ingress result) filtered"
    using filter_rules_kept [of cf "Ingress result" hs] fr by simp
  have ok1: "\<forall>c \<in> set (snd ?w1). call_ok cf (Ingress result) c"
    using before by simp
  have ok2: "\<forall>c \<in> set (snd ?w2). call_ok cf (Ingress result) c"
    using before kept by simp
  have cases: "RemoveRoutes api tunnel cf hs w = ?w2
             \<or> RemoveRoutes api tunnel cf hs w = delete_dns_loop api cf hs ?w2
             \<or> RemoveRoutes api tunnel cf hs w = delete_dns_loop api cf hs ?w1"
    using get fr
    by (cases modified; cases "fst ?put")
       (simp_all add: RemoveRoutes_def invoke_split Let_def)
  then show ?thesis
    using ok2 delete_dns_loop_ok [OF ok2] delete_dns_loop_ok [OF ok1] by metis
qed

text \<open>
  C8.  A name in the exclusion set is skipped before any call is made for it.
  Each of \<open>SyncDomains\<close>, \<open>RemoveDomains\<close>, \<open>AddRoutes\<close> and \<open>RemoveRoutes\<close> does
  exactly what it does on the input without its excluded names: the provider
  state and the calls are the same.  Among the calls made, every listing,
  creation and update names a domain that is not excluded, and every pushed
  tunnel configuration still has each fetched rule of an excluded hostname and
  has no rule of an excluded hostname that was not fetched (the catch-all rule
  appended to an empty list apart).  This holds for every provider, whatever
  its calls return.
\<close>

theorem excluded_names_skipped:
  "SyncDomains api cf names w
     = SyncDomains api cf (filter (\<lambda>d. \<not> ExcludeDomains cf d) names) w
   \<and> RemoveDomains api cf names w
       = RemoveDomains api cf (filter (\<lambda>d. \<not> ExcludeDomains cf d) names) w
   \<and> AddRoutes api tunnel cf names url w
       = AddRoutes api tunnel cf (filter (\<lambda>d. \<not> ExcludeDomains cf d) names) url w
   \<and> RemoveRoutes api tunnel cf names w
       = RemoveRoutes api tunnel cf (filter (\<lambda>d. \<not> ExcludeDomains cf d) names) w
   \<and> (\<forall>c \<in> set (snd (SyncDomains api cf names (s, []))). call_ok cf fetched c)
   \<and> (\<forall>c \<in> set (snd (RemoveDomains api cf names (s, []))). call_ok cf fetched c)
   \<and> (fst (GetTunnelConfiguration api (AccountID tunnel) (TunnelID tunnel) s) = Inr result \<longrightarrow>
        (\<forall>c \<in> set (snd (AddRoutes api tunnel cf names url (s, []))).
            call_ok cf (Ingress result) c)
        \<and> (\<forall>c \<in> set (snd (RemoveRoutes api tunnel cf names (s, []))).
              call_ok cf (Ingress result) c))
   \<and> (fst (GetTunnelConfiguration api (AccountID tunnel) (TunnelID tunnel) s) = Inl err \<longrightarrow>
        snd (AddRoutes api tunnel cf names url (s, []))
          = [GetTunnelCall (AccountID tunnel) (TunnelID tunnel)]
        \<and> snd (RemoveRoutes api tunnel cf names (s, []))
            = [GetTunnelCall (AccountID tunnel) (TunnelID tunnel)])"
proof (intro conjI impI)
  show "SyncDomains api cf names w
          = SyncDomains api cf (filter (\<lambda>d. \<not> ExcludeDomains cf d) names) w"
    by (rule SyncDomains_filter)
  show "RemoveDomains api cf names w
          = RemoveDomains api cf (filter (\<lambda>d. \<not> ExcludeDomains cf d) names) w"
    by (rule RemoveDomains_filter)
  show "AddRoutes api tunnel cf names url w
          = AddRoutes api tunnel cf (filter (\<lambda>d. \<not> ExcludeDomains cf d) names) url w"
    by (rule AddRoutes_filter)
  show "RemoveRoutes api tunnel cf names w
          = RemoveRoutes api tunnel cf (filter (\<lambda>d. \<not> ExcludeDomains cf d) names) w"
    by (rule RemoveRoutes_filter)
  show "\<forall>c \<in> set (snd (SyncDomains api cf names (s, []))). call_ok cf fetched c"
    by (rule SyncDomains_ok) simp
  show "\<forall>c \<in> set (snd (RemoveDomains api cf names (s, []))). call_ok cf fetched c"
    by (rule RemoveDomains_ok) simp
next
  assume "fst (GetTunnelConfiguration api (AccountID tunnel) (TunnelID tunnel) s) = Inr result"
  then have get: "fst (GetTunnelConfiguration api (AccountID tunnel) (TunnelID tunnel)
                        (fst (s, ([]::APICall list)))) = Inr result"
    by simp
  show "\<forall>c \<in> set (snd (AddRoutes api tunnel cf names url (s, []))).
          call_ok cf (Ingress result) c"
    by (rule AddRoutes_ok [OF get]) simp
  show "\<forall>c \<in> set (snd (RemoveRoutes api tunnel cf names (s, []))).
          call_ok cf (Ingress result) c"
    by (rule RemoveRoutes_ok [OF get]) simp
next
  assume "fst (GetTunnelConfiguration api (AccountID tunnel) (TunnelID tunnel) s) = Inl err"
  then show "snd (AddRoutes api tunnel cf names url (s, []))
               = [GetTunnelCall (AccountID tunnel) (TunnelID tunnel)]"
    and "snd (RemoveRoutes api tunnel cf names (s, []))
               = [GetTunnelCall (AccountID tunnel) (TunnelID tunnel)]"
    by (simp_all add: AddRoutes_def RemoveRoutes_def invoke_split)
qed

lemma decimal_1: "decimal 1 = ''1''"
  by (simp add: digit_def)

lemma seeded_get:
  "GetTunnelConfiguration mockAPI a ''test-tunnel-uuid'' seeded_mock
     = (Inr \<lparr>Ingress = [catch_all], WarpRouting = [], OriginRequest = []\<rparr>, seeded_mock)"
  by (simp add: mockAPI_def mock_GetTunnelConfiguration_def seeded_mock_def
                newMockCloudflareAPI_def)

lemma AddRoutes_app_excluding_calls:
  "snd (AddRoutes mockAPI test_tunnel exclude_cfg [''app.homelab.net'']
          ''http://localhost:8080'' (seeded_mock, []))
     = [GetTunnelCall ''test-account-id'' ''test-tunnel-uuid'',
        PutTunnelCall ''test-account-id'' ''test-tunnel-uuid''
          \<lparr>Ingress = [\<lparr>Hostname = ''app.homelab.net'', Path = [],
                       Service = ''http://localhost:8080''\<rparr>, catch_all],
           WarpRouting = [], OriginRequest = []\<rparr>,
        ListCall ''zone_1'' (cname_filter ''app.homelab.net''),
        CreateCall ''zone_1''
          (cname_record exclude_cfg ''app.homelab.net'' ''test-tunnel-uuid.cfargotunnel.com'')]"
  by code_simp

theorem excluded_names_skipped_witness:
  "ExcludeDomains exclude_cfg ''internal.homelab.net''
   \<and> \<not> ExcludeDomains exclude_cfg ''app.homelab.net''
   \<and> AddRoutes mockAPI test_tunnel exclude_cfg [''app.homelab.net'', ''internal.homelab.net'']
        ''http://localhost:8080'' (seeded_mock, [])
      = AddRoutes mockAPI test_tunnel exclude_cfg [''app.homelab.net'']
          ''http://localhost:8080'' (seeded_mock, [])
   \<and> snd (AddRoutes mockAPI test_tunnel exclude_cfg
             [''app.homelab.net'', ''internal.homelab.net'']
             ''http://localhost:8080'' (seeded_mock, []))
      = [GetTunnelCall ''test-account-id'' ''test-tunnel-uuid'',
         PutTunnelCall ''test-account-id'' ''test-tunnel-uuid''
           \<lparr>Ingress = [\<lparr>Hostname = ''app.homelab.net'', Path = [],
                        Service = ''http://localhost:8080''\<rparr>, catch_all],
            WarpRouting = [], OriginRequest = []\<rparr>,
         ListCall ''zone_1'' (cname_filter ''app.homelab.net''),
         CreateCall ''zone_1''
           (cname_record exclude_cfg ''app.homelab.net'' ''test-tunnel-uuid.cfargotunnel.com'')]
   \<and> SyncDomains mockAPI exclude_cfg [''internal.homelab.net''] (seeded_mock, [])
      = (seeded_mock, [])
   \<and> RemoveDomains mockAPI exclude_cfg [''internal.homelab.net''] (seeded_mock, [])
      = (seeded_mock, [])
   \<and> fst (GetTunnelConfiguration mockAPI (AccountID test_tunnel) (TunnelID test_tunnel)
            seeded_mock)
      = Inr \<lparr>Ingress = [catch_all], WarpRouting = [], OriginRequest = []\<rparr>
   \<and> snd (RemoveRoutes mockAPI test_tunnel exclude_cfg [''internal.homelab.net'']
             (seeded_mock, []))
      = [GetTunnelCall ''test-account-id'' ''test-tunnel-uuid'']"
proof -
  let ?w = "(seeded_mock, []::APICall list)"
  note inst = excluded_names_skipped
                [of mockAPI exclude_cfg _ ?w test_tunnel "''http://localhost:8080''"]
  have ex: "ExcludeDomains exclude_cfg ''internal.homelab.net''"
           "\<not> ExcludeDomains exclude_cfg ''app.homelab.net''"
    by (simp_all add: exclude_cfg_def)
  have add: "AddRoutes mockAPI test_tunnel exclude_cfg
               [''app.homelab.net'', ''internal.homelab.net''] ''http://localhost:8080'' ?w
             = AddRoutes mockAPI test_tunnel exclude_cfg [''app.homelab.net'']
                 ''http://localhost:8080'' ?w"
    using inst [of "[''app.homelab.net'', ''internal.homelab.net'']"] ex by simp
  have sync: "SyncDomains mockAPI exclude_cfg [''internal.homelab.net''] ?w = ?w"
    using inst [of "[''internal.homelab.net'']"] ex by simp
  have rem: "RemoveDomains mockAPI exclude_cfg [''internal.homelab.net''] ?w = ?w"
    using inst [of "[''internal.homelab.net'']"] ex by simp
  have rr: "RemoveRoutes mockAPI test_tunnel exclude_cfg [''internal.homelab.net''] ?w
              = RemoveRoutes mockAPI test_tunnel exclude_cfg [] ?w"
    using inst [of "[''internal.homelab.net'']"] ex by simp
  have rr0: "snd (RemoveRoutes mockAPI test_tunnel exclude_cfg [] ?w)
               = [GetTunnelCall ''test-account-id'' ''test-tunnel-uuid'']"
    by (simp add: RemoveRoutes_def invoke_split test_tunnel_def seeded_get catch_all_def)
  have get: "fst (GetTunnelConfiguration mockAPI (AccountID test_tunnel) (TunnelID test_tunnel)
                    seeded_mock)
               = Inr \<lparr>Ingress = [catch_all], WarpRouting = [], OriginRequest = []\<rparr>"
    by (simp add: test_tunnel_def seeded_get)
  show ?thesis
    using ex add sync rem rr rr0 get AddRoutes_app_excluding_calls by simp
qed

section \<open>Properties of the tunnel routes\<close>



lemma update_existing_exists:
  "first_service ing h \<noteq> None \<Longrightarrow> fst (snd (update_existing ing h url))"
  by (induction ing) (auto simp: first_service_def split: prod.splits)













lemma mock_get:
  "GetTunnelConfiguration mockAPI a t m
     = (Inr \<lparr>Ingress = tunnelIngress m t, WarpRouting = tunnelWarp m t,
              OriginRequest = tunnelOrigin m t\<rparr>, m)"
  by (simp add: mockAPI_def mock_GetTunnelConfiguration_def)

lemma mock_put:
  "UpdateTunnelConfiguration mockAPI a t c m
     = (Inr c, m\<lparr>tunnelIngress := (tunnelIngress m)(t := Ingress c),
                 tunnelOrigin := (tunnelOrigin m)(t := OriginRequest c),
                 tunnelWarp := (tunnelWarp m)(t := WarpRouting c)\<rparr>)"
  by (simp add: mockAPI_def mock_UpdateTunnelConfiguration_def)
















text \<open>
  C6.  The claim: \<open>RemoveRoutes\<close> never removes the catch-all rule, also when
  the names contain the empty hostname of the catch-all rule.  \<open>RemoveRoutes\<close>
  drops every rule whose hostname is in the set of names that are not
  excluded, and nothing keeps the empty name out of that set: with the name
  list \<open>[""]\<close> on the tunnel of the tests, seeded with the catch-all rule, the
  filtered list is empty and is pushed, so the tunnel is left without any rule.
\<close>

theorem RemoveRoutes_drops_catch_all:
  "tunnelIngress seeded_mock ''test-tunnel-uuid'' = [catch_all]
   \<and> Hostname catch_all = []
   \<and> filter_rules [catch_all] (build_removeSet tunnel_cfg [[]] (\<lambda>h. False)) [] False
       = ([], True)
   \<and> tunnelIngress (fst (RemoveRoutes mockAPI test_tunnel tunnel_cfg [[]] (seeded_mock, [])))
        ''test-tunnel-uuid'' = []
   \<and> snd (RemoveRoutes mockAPI test_tunnel tunnel_cfg [[]] (seeded_mock, []))
       = [GetTunnelCall ''test-account-id'' ''test-tunnel-uuid'',
          PutTunnelCall ''test-account-id'' ''test-tunnel-uuid''
            \<lparr>Ingress = [], WarpRouting = [], OriginRequest = []\<rparr>]"
proof -
  have seed: "tunnelIngress seeded_mock ''test-tunnel-uuid'' = [catch_all]"
    by (simp add: seeded_mock_def newMockCloudflareAPI_def)
  have f: "filter_rules [catch_all] (build_removeSet tunnel_cfg [[]] (\<lambda>h. False)) [] False
             = ([], True)"
    by (simp add: tunnel_cfg_def catch_all_def)
  have z: "tunnel_findZoneForDomain tunnel_cfg [] = []"
    by (simp add: tunnel_findZoneForDomain_def tunnel_cfg_def HasSuffix_def)
  have other: "tunnelWarp seeded_mock ''test-tunnel-uuid'' = []"
              "tunnelOrigin seeded_mock ''test-tunnel-uuid'' = []"
    by (simp_all add: seeded_mock_def newMockCloudflareAPI_def)
  have ex: "\<not> ExcludeDomains tunnel_cfg []"
    by (simp add: tunnel_cfg_def)
  have run: "RemoveRoutes mockAPI test_tunnel tunnel_cfg [[]] (seeded_mock, [])
          = (seeded_mock\<lparr>tunnelIngress := (tunnelIngress seeded_mock)(''test-tunnel-uuid'' := []),
                tunnelOrigin := (tunnelOrigin seeded_mock)(''test-tunnel-uuid'' := []),
                tunnelWarp := (tunnelWarp seeded_mock)(''test-tunnel-uuid'' := [])\<rparr>,
             [GetTunnelCall ''test-account-id'' ''test-tunnel-uuid'',
              PutTunnelCall ''test-account-id'' ''test-tunnel-uuid''
                \<lparr>Ingress = [], WarpRouting = [], OriginRequest = []\<rparr>])"
    by (simp add: RemoveRoutes_def invoke_split mock_get mock_put test_tunnel_def seed other
                  ex deleteTunnelDNS_def z catch_all_def)
  have hc: "Hostname catch_all = []"
    by (simp add: catch_all_def)
  show ?thesis
    using seed f run hc by simp
qed

section \<open>The records of the tests' provider\<close>

declare decimal.simps [simp del]

lemma digit_inj: "a < 10 \<Longrightarrow> b < 10 \<Longrightarrow> digit a = digit b \<Longrightarrow> a = b"
proof -
  assume a: "a < 10" and b: "b < 10" and e: "digit a = digit b"
  have "a \<in> {0, 1, 2, 3, 4, 5, 6, 7, 8, 9}" using a by auto
  moreover have "b \<in> {0, 1, 2, 3, 4, 5, 6, 7, 8, 9}" using b by auto
  ultimately show "a = b"
    using e by (auto simp: digit_def)
qed

lemma decimal_nonempty: "decimal n \<noteq> []"
  by (subst decimal.simps) simp

lemma decimal_inj: "decimal a = decimal b \<Longrightarrow> a = b"
proof (induction a arbitrary: b rule: decimal.induct)
  case (1 n)
  show ?case
  proof (cases "10 \<le> n")
    case small: False
    then have dn: "decimal n = [digit n]" by (subst decimal.simps) simp
    show ?thesis
    proof (cases "10 \<le> b")
      case False
      then have "decimal b = [digit b]" by (subst decimal.simps) simp
      then have "[digit n] = [digit b]" using dn "1.prems" by (simp only:)
      then have "digit n = digit b" by (simp only: list.inject)
      then show ?thesis using small False by (intro digit_inj) simp_all
    next
      case True
      then have "decimal b = decimal (b div 10) @ [digit (b mod 10)]"
        by (subst decimal.simps) simp
      then have "[digit n] = decimal (b div 10) @ [digit (b mod 10)]"
        using dn "1.prems" by (simp only:)
      then show ?thesis using decimal_nonempty [of "b div 10"] by simp
    qed
  next
    case big: True
    then have dn: "decimal n = decimal (n div 10) @ [digit (n mod 10)]"
      by (subst decimal.simps) simp
    show ?thesis
    proof (cases "10 \<le> b")
      case False
      then have "decimal b = [digit b]" by (subst decimal.simps) simp
      then have "decimal (n div 10) @ [digit (n mod 10)] = [digit b]"
        using dn "1.prems" by (simp only:)
      then show ?thesis using decimal_nonempty [of "n div 10"] by simp
    next
      case True
      then have "decimal b = decimal (b div 10) @ [digit (b mod 10)]"
        by (subst decimal.simps) simp
      then have "decimal (n div 10) @ [digit (n mod 10)]
                   = decimal (b div 10) @ [digit (b mod 10)]"
        using dn "1.prems" by (simp only:)
      then have "decimal (n div 10) = decimal (b div 10)"
        and d: "digit (n mod 10) = digit (b mod 10)"
        by simp_all
      then have "n div 10 = b div 10" using "1.IH" [OF big] by simp
      moreover have "n mod 10 = b mod 10" using d by (intro digit_inj) simp_all
      ultimately show ?thesis by (metis div_mult_mod_eq)
    qed
  qed
qed

lemma mock_list:
  "d \<noteq> [] \<Longrightarrow> ListDNSRecords mockAPI z (cname_filter d) m = (Inr (cname_records m z d), m)"
  by (simp add: mockAPI_def mock_ListDNSRecords_def cname_filter_def cname_records_def)

lemma replace_record_split:
  "recordID \<notin> rec_ID ` set us
   \<Longrightarrow> replace_record (us @ r # vs) recordID record
       = (if rec_ID r = recordID then Some (us @ record\<lparr>rec_ID := recordID\<rparr> # vs)
          else map_option (\<lambda>xs. us @ r # xs) (replace_record vs recordID record))"
  by (induction us) (auto simp: option.map_comp comp_def)

lemma findZone_nonempty:
  assumes "findZoneForDomain cfg d \<noteq> []"
  shows "d \<noteq> []"
proof -
  have "findZone_loop (Zones cfg) d [] [] \<noteq> []"
    using assms by (simp add: findZoneForDomain_def)
  with findZone_loop_char [of "Zones cfg" d "[]" "[]"]
  obtain z :: CloudflareZone where "zone_matches d (ZoneDomain z)" and "ZoneDomain z \<noteq> []"
    by (elim disjE conjE bexE) auto
  then show ?thesis by (auto simp: zone_matches_def HasSuffix_def)
qed

lemma mock_methods:
  "CreateDNSRecord mockAPI = mock_CreateDNSRecord"
  "UpdateDNSRecord mockAPI = mock_UpdateDNSRecord"
  "DeleteDNSRecord mockAPI = mock_DeleteDNSRecord"
  by (simp_all add: mockAPI_def)

text \<open>One upsert on the provider of the tests, on a well-formed state.\<close>

lemma upsertRecord_mock:
  fixes m :: mockCloudflareAPI and cfg :: CloudflareConfig and d z d' z' :: string
    and log :: "APICall list"
  assumes wf: "mock_wf m" and d: "d \<noteq> []"
  defines "record \<equiv> cname_record cfg d (TargetDomain cfg)"
  defines "m' \<equiv> fst (snd (upsertRecord mockAPI cfg z d (m, log)))"
  shows "mock_wf m'"
    and "cname_records m' z d
           = upserted (cname_records m z d) record (''rec_'' @ decimal (nextID m))"
    and "(z', d') \<noteq> (z, d) \<Longrightarrow> cname_records m' z' d' = cname_records m z' d'"
    and "cname_records m z d \<noteq> [] \<Longrightarrow> rec_Content (hd (cname_records m z d)) = TargetDomain cfg
         \<Longrightarrow> upsertRecord mockAPI cfg z d (m, log)
               = (None, (m, log @ [ListCall z (cname_filter d)]))"
proof -
  let ?P = "\<lambda>rec. rec_Type rec = ''CNAME'' \<and> rec_Name rec = d"
  let ?Q = "\<lambda>rec. rec_Type rec = ''CNAME'' \<and> rec_Name rec = d'"
  let ?new = "''rec_'' @ decimal (nextID m)"
  have rec_props: "rec_Type record = ''CNAME''" "rec_Name record = d"
      "rec_Content record = TargetDomain cfg"
    by (simp_all add: record_def cname_record_def)
  have dist: "distinct (map rec_ID (records m z))" for z
    using wf by (simp add: mock_wf_def)
  have fresh: "rec_ID r \<noteq> ''rec_'' @ decimal k" if "r \<in> set (records m z)" "nextID m \<le> k" for r z k
    using wf that by (auto simp: mock_wf_def)
  show "cname_records m z d \<noteq> [] \<Longrightarrow> rec_Content (hd (cname_records m z d)) = TargetDomain cfg
         \<Longrightarrow> upsertRecord mockAPI cfg z d (m, log)
               = (None, (m, log @ [ListCall z (cname_filter d)]))"
    using d by (simp add: upsertRecord_def invoke_split mock_list)
  show "mock_wf m'"
   and "cname_records m' z d = upserted (cname_records m z d) record ?new"
   and "(z', d') \<noteq> (z, d) \<Longrightarrow> cname_records m' z' d' = cname_records m z' d'"
  proof -
    consider (create) "cname_records m z d = []"
      | (same) rec rest where "cname_records m z d = rec # rest"
          "rec_Content rec = TargetDomain cfg"
      | (update) rec rest where "cname_records m z d = rec # rest"
          "rec_Content rec \<noteq> TargetDomain cfg"
      by (cases "cname_records m z d") auto
    then have "mock_wf m'
      \<and> cname_records m' z d = upserted (cname_records m z d) record ?new
      \<and> ((z', d') \<noteq> (z, d) \<longrightarrow> cname_records m' z' d' = cname_records m z' d')"
    proof cases
      case create
      have m': "m' = m\<lparr>nextID := nextID m + 1,
                        records := (records m)(z := records m z @ [record\<lparr>rec_ID := ?new\<rparr>])\<rparr>"
        using d create
        by (simp add: m'_def upsertRecord_def invoke_split mock_list record_def
                      mock_methods mock_CreateDNSRecord_def Let_def)
      have "mock_wf m'"
        unfolding m' mock_wf_def
        using dist fresh decimal_inj by (auto simp: image_iff) force+
      moreover have "cname_records m' z d = upserted (cname_records m z d) record ?new"
        using create rec_props unfolding m' by (simp add: cname_records_def upserted_def)
      moreover have "cname_records m' z' d' = cname_records m z' d'" if "(z', d') \<noteq> (z, d)"
        using that rec_props unfolding m' by (auto simp: cname_records_def)
      ultimately show ?thesis by blast
    next
      case same
      then have "m' = m"
        using d by (simp add: m'_def upsertRecord_def invoke_split mock_list)
      then show ?thesis using wf same rec_props by (simp add: upserted_def)
    next
      case update
      from update(1) obtain us vs where
        decomp: "records m z = us @ rec # vs" and us: "\<forall>u \<in> set us. \<not> ?P u"
        and rec: "?P rec" and rest: "rest = filter ?P vs"
        unfolding cname_records_def filter_eq_Cons_iff by blast
      have notin: "rec_ID rec \<notin> rec_ID ` set us"
        using dist [of z] unfolding decomp by auto
      let ?r' = "record\<lparr>rec_ID := rec_ID rec\<rparr>"
      have repl: "replace_record (records m z) (rec_ID rec) record = Some (us @ ?r' # vs)"
        unfolding decomp using replace_record_split [OF notin] by simp
      have m': "m' = m\<lparr>records := (records m)(z := us @ ?r' # vs)\<rparr>"
        using d update repl
        by (simp add: m'_def upsertRecord_def invoke_split mock_list record_def
                      mock_methods mock_UpdateDNSRecord_def Let_def)
      have ids: "map rec_ID (us @ ?r' # vs) = map rec_ID (records m z)"
        unfolding decomp by simp
      have "mock_wf m'"
        unfolding mock_wf_def
      proof (intro allI conjI ballI impI)
        fix y
        show "distinct (map rec_ID (records m' y))"
          using dist [of y] ids unfolding m' by (cases "y = z") simp_all
        fix r k assume r: "r \<in> set (records m' y)" and k: "nextID m' \<le> k"
        have "rec_ID r \<in> rec_ID ` set (records m y)"
        proof (cases "y = z")
          case True
          then have "r \<in> set (us @ ?r' # vs)"
            using r unfolding m' by simp
          then have "rec_ID r \<in> set (map rec_ID (us @ ?r' # vs))"
            unfolding set_map by (rule imageI)
          then have "rec_ID r \<in> set (map rec_ID (records m z))"
            unfolding ids .
          then show ?thesis using True unfolding set_map by simp
        next
          case False
          then show ?thesis using r unfolding m' by simp
        qed
        then obtain r0 where "r0 \<in> set (records m y)" "rec_ID r = rec_ID r0" by auto
        then show "rec_ID r \<noteq> ''rec_'' @ decimal k"
          using fresh [of r0 y k] k unfolding m' by simp
      qed
      moreover have "cname_records m' z d = upserted (cname_records m z d) record ?new"
        using update us rec rest rec_props unfolding m'
        by (simp add: cname_records_def upserted_def decomp)
      moreover have "cname_records m' z' d' = cname_records m z' d'" if "(z', d') \<noteq> (z, d)"
      proof (cases "z' = z")
        case False
        then show ?thesis unfolding m' by (simp add: cname_records_def)
      next
        case True
        then have "d' \<noteq> d" using that by simp
        then show ?thesis
          using True rec rec_props unfolding m' by (simp add: cname_records_def decomp)
      qed
      ultimately show ?thesis by blast
    qed
    then show "mock_wf m'"
     and "cname_records m' z d = upserted (cname_records m z d) record ?new"
     and "(z', d') \<noteq> (z, d) \<Longrightarrow> cname_records m' z' d' = cname_records m z' d'"
      by blast+
  qed
qed

lemma upserted_twice:
  "rec_Content record = target
   \<Longrightarrow> upserted (upserted xs record i) record j = upserted xs record i"
  by (cases xs) (simp_all add: upserted_def)

lemma upserted_props:
  assumes "ys = upserted xs record i"
  shows "length ys = max 1 (length xs)" and "ys \<noteq> []"
    and "rec_Content (hd ys) = rec_Content record"
    and "xs \<noteq> [] \<Longrightarrow> rec_ID (hd ys) = rec_ID (hd xs) \<and> tl ys = tl xs"
  using assms by (cases xs; simp add: upserted_def)+

lemma SyncDomains_mock_step:
  fixes m :: mockCloudflareAPI and cfg :: CloudflareConfig and d z' d' :: string
    and log :: "APICall list"
  assumes wf: "mock_wf m" and h: "handled cfg d"
  defines "m' \<equiv> fst (snd (upsertRecord mockAPI cfg (findZoneForDomain cfg d) d (m, log)))"
  shows "mock_wf m'" and "in_sync cfg m' d"
    and "in_sync cfg m d' \<Longrightarrow> in_sync cfg m' d'"
    and "\<exists>i. cname_records m' (findZoneForDomain cfg d) d
               = upserted (cname_records m (findZoneForDomain cfg d) d)
                   (cname_record cfg d (TargetDomain cfg)) i"
    and "(z', d') \<noteq> (findZoneForDomain cfg d, d)
         \<Longrightarrow> cname_records m' z' d' = cname_records m z' d'"
proof -
  let ?z = "findZoneForDomain cfg d"
  let ?wanted = "cname_record cfg d (TargetDomain cfg)"
  have d: "d \<noteq> []" using h findZone_nonempty [of cfg d] by (simp add: handled_def)
  note u = upsertRecord_mock [OF wf d, where cfg = cfg and z = ?z and log = log]
  show "mock_wf m'" unfolding m'_def by (rule u(1))
  have view: "cname_records m' ?z d
                = upserted (cname_records m ?z d) ?wanted (''rec_'' @ decimal (nextID m))"
    unfolding m'_def by (rule u(2))
  then show "\<exists>i. cname_records m' ?z d = upserted (cname_records m ?z d) ?wanted i"
    by blast
  have c: "rec_Content ?wanted = TargetDomain cfg"
    by (simp add: cname_record_def)
  show here: "in_sync cfg m' d"
    using upserted_props(2,3) [OF view] c by (simp add: in_sync_def)
  show other: "cname_records m' z' d' = cname_records m z' d'" if "(z', d') \<noteq> (?z, d)" for z' d'
    unfolding m'_def using that by (rule u(3))
  show "in_sync cfg m' d'" if "in_sync cfg m d'"
  proof (cases "d' = d")
    case True
    then show ?thesis using here by simp
  next
    case False
    then have "cname_records m' (findZoneForDomain cfg d') d'
                 = cname_records m (findZoneForDomain cfg d') d'"
      by (intro other) simp
    then show ?thesis using that by (simp add: in_sync_def)
  qed
qed

lemma SyncDomains_mock_settles:
  "mock_wf m \<Longrightarrow> \<forall>d \<in> S. in_sync cfg m d
   \<Longrightarrow> mock_wf (fst (SyncDomains mockAPI cfg ds (m, log)))
       \<and> (\<forall>d \<in> S \<union> set ds. in_sync cfg (fst (SyncDomains mockAPI cfg ds (m, log))) d)"
proof (induction ds arbitrary: m log S)
  case Nil
  then show ?case by simp
next
  case (Cons d ds)
  show ?case
  proof (cases "handled cfg d")
    case False
    then have skip: "SyncDomains mockAPI cfg (d # ds) (m, log) = SyncDomains mockAPI cfg ds (m, log)"
      by (auto simp: handled_def Let_def)
    have "in_sync cfg m d" using False by (auto simp: handled_def in_sync_def)
    then have "\<forall>x \<in> insert d S. in_sync cfg m x" using Cons.prems by simp
    from Cons.IH [OF Cons.prems(1) this, of log] show ?thesis
      unfolding skip by simp
  next
    case True
    let ?u = "upsertRecord mockAPI cfg (findZoneForDomain cfg d) d (m, log)"
    have step: "SyncDomains mockAPI cfg (d # ds) (m, log)
                  = SyncDomains mockAPI cfg ds (fst (snd ?u), snd (snd ?u))"
      using True by (simp add: handled_def Let_def)
    note s = SyncDomains_mock_step [OF Cons.prems(1) True, where log = log]
    have "\<forall>x \<in> insert d S. in_sync cfg (fst (snd ?u)) x"
      using s(2) s(3) Cons.prems(2) by blast
    from Cons.IH [OF s(1) this, of "snd (snd ?u)"] show ?thesis
      unfolding step by simp
  qed
qed

lemma SyncDomains_mock_in_sync:
  "mock_wf m \<Longrightarrow> \<forall>d \<in> set ds. in_sync cfg m d
   \<Longrightarrow> SyncDomains mockAPI cfg ds (m, log)
       = (m, log @ map (\<lambda>d. ListCall (findZoneForDomain cfg d) (cname_filter d))
                       (filter (handled cfg) ds))"
proof (induction ds arbitrary: log)
  case Nil
  show ?case by simp
next
  case (Cons d ds)
  show ?case
  proof (cases "handled cfg d")
    case False
    then have "SyncDomains mockAPI cfg (d # ds) (m, log) = SyncDomains mockAPI cfg ds (m, log)"
      by (auto simp: handled_def Let_def)
    then show ?thesis using Cons False by simp
  next
    case True
    let ?z = "findZoneForDomain cfg d"
    have d: "d \<noteq> []" using True findZone_nonempty [of cfg d] by (simp add: handled_def)
    have "cname_records m ?z d \<noteq> []"
      and "rec_Content (hd (cname_records m ?z d)) = TargetDomain cfg"
      using Cons.prems(2) True by (auto simp: in_sync_def handled_def)
    then have "upsertRecord mockAPI cfg ?z d (m, log)
                 = (None, (m, log @ [ListCall ?z (cname_filter d)]))"
      by (rule upsertRecord_mock(4) [OF Cons.prems(1) d])
    then have "SyncDomains mockAPI cfg (d # ds) (m, log)
                 = SyncDomains mockAPI cfg ds (m, log @ [ListCall ?z (cname_filter d)])"
      using True by (simp add: handled_def Let_def)
    then show ?thesis
      using Cons.IH [OF Cons.prems(1), of "log @ [ListCall ?z (cname_filter d)]"] Cons.prems(2)
            True
      by simp
  qed
qed

lemma SyncDomains_mock_view:
  "mock_wf m \<Longrightarrow>
   (if d' \<in> set ds \<and> handled cfg d' \<and> z' = findZoneForDomain cfg d'
    then \<exists>i. cname_records (fst (SyncDomains mockAPI cfg ds (m, log))) z' d'
               = upserted (cname_records m z' d') (cname_record cfg d' (TargetDomain cfg)) i
    else cname_records (fst (SyncDomains mockAPI cfg ds (m, log))) z' d'
           = cname_records m z' d')"
proof (induction ds arbitrary: m log)
  case Nil
  show ?case by simp
next
  case (Cons d ds)
  let ?wanted = "cname_record cfg d' (TargetDomain cfg)"
  let ?C = "\<lambda>ds. d' \<in> set ds \<and> handled cfg d' \<and> z' = findZoneForDomain cfg d'"
  have c: "rec_Content ?wanted = TargetDomain cfg" by (simp add: cname_record_def)
  show ?case
  proof (cases "handled cfg d")
    case False
    then have skip: "SyncDomains mockAPI cfg (d # ds) (m, log)
                       = SyncDomains mockAPI cfg ds (m, log)"
      by (auto simp: handled_def Let_def)
    have "?C (d # ds) \<longleftrightarrow> ?C ds"
      using False by auto
    then show ?thesis
      unfolding skip using Cons.IH [OF Cons.prems, of log] by simp
  next
    case True
    let ?u = "upsertRecord mockAPI cfg (findZoneForDomain cfg d) d (m, log)"
    define m1 where "m1 = fst (snd ?u)"
    define after where "after = fst (SyncDomains mockAPI cfg ds (snd ?u))"
    have step: "fst (SyncDomains mockAPI cfg (d # ds) (m, log)) = after"
      using True by (simp add: handled_def Let_def after_def)
    note s = SyncDomains_mock_step [OF Cons.prems True, where log = log, folded m1_def]
    have w: "(m1, snd (snd ?u)) = snd ?u"
      by (simp add: m1_def)
    have ih: "if ?C ds
              then \<exists>i. cname_records after z' d' = upserted (cname_records m1 z' d') ?wanted i
              else cname_records after z' d' = cname_records m1 z' d'"
      using Cons.IH [OF s(1), of "snd (snd ?u)"] unfolding w after_def [symmetric] .
    have goal: "if ?C (d # ds)
                then \<exists>i. cname_records after z' d' = upserted (cname_records m z' d') ?wanted i
                else cname_records after z' d' = cname_records m z' d'"
    proof (cases "(z', d') = (findZoneForDomain cfg d, d)")
      case here: True
      then have now: "?C (d # ds)" using \<open>handled cfg d\<close> by simp
      from here obtain i where
        one: "cname_records m1 z' d' = upserted (cname_records m z' d') ?wanted i"
        using s(4) by auto
      have "\<exists>j. cname_records after z' d' = upserted (cname_records m z' d') ?wanted j"
      proof (cases "?C ds")
        case True
        then obtain j where
          "cname_records after z' d' = upserted (cname_records m1 z' d') ?wanted j"
          using ih by auto
        then show ?thesis unfolding one upserted_twice [OF c] by blast
      next
        case False
        then have "cname_records after z' d' = cname_records m1 z' d'"
          using ih by simp
        then show ?thesis using one by auto
      qed
      then show ?thesis using now by simp
    next
      case there: False
      then have same: "cname_records m1 z' d' = cname_records m z' d'"
        by (rule s(5))
      have "?C (d # ds) \<longleftrightarrow> ?C ds"
        using there by auto
      then show ?thesis using ih unfolding same by simp
    qed
    show ?thesis unfolding step by (rule goal)
  qed
qed

lemma SyncDomains_one_calls:
  assumes "handled cfg d"
  shows "snd (SyncDomains api cfg [d] (s, []))
           = ListCall (findZoneForDomain cfg d) (cname_filter d) #
             (case fst (ListDNSRecords api (findZoneForDomain cfg d) (cname_filter d) s) of
                Inl err \<Rightarrow> []
              | Inr existing \<Rightarrow>
                  (case existing of
                     [] \<Rightarrow> [CreateCall (findZoneForDomain cfg d)
                              (cname_record cfg d (TargetDomain cfg))]
                   | rec # rest \<Rightarrow>
                       if rec_Content rec = TargetDomain cfg then []
                       else [UpdateCall (findZoneForDomain cfg d) (rec_ID rec)
                               (cname_record cfg d (TargetDomain cfg))]))"
  using assms
  by (simp add: handled_def Let_def upsertRecord_def invoke_split
           split: sum.split list.split)

lemma retarget_same_zones:
  "findZoneForDomain (cfg\<lparr>TargetDomain := t\<rparr>) d = findZoneForDomain cfg d"
  "handled (cfg\<lparr>TargetDomain := t\<rparr>) d = handled cfg d"
  by (simp_all add: findZoneForDomain_def handled_def)

text \<open>
  C3.  For a name that is not excluded and has a zone, \<open>SyncDomains\<close> lists the
  records of type CNAME with the literal name, then creates a record with the
  configured target if the listing is empty, makes no further call if the
  first record listed has the target, and otherwise updates the first record
  (by its ID); this holds for every provider.  On the provider of the tests, in
  any well-formed state: a second run with the same names and target leaves the
  state as it is and only lists; after the first run each handled name has as
  many records as before, or one if it had none, and the first has the
  target; a run with another target leaves the number of records of each name
  as it is and writes the new target into the first record, which keeps its
  ID.
\<close>

theorem SyncDomains_idempotent_upsert:
  "(handled cfg d \<longrightarrow>
      snd (SyncDomains api cfg [d] (s, []))
        = ListCall (findZoneForDomain cfg d) (cname_filter d) #
          (case fst (ListDNSRecords api (findZoneForDomain cfg d) (cname_filter d) s) of
             Inl err \<Rightarrow> []
           | Inr existing \<Rightarrow>
               (case existing of
                  [] \<Rightarrow> [CreateCall (findZoneForDomain cfg d)
                           (cname_record cfg d (TargetDomain cfg))]
                | rec # rest \<Rightarrow>
                    if rec_Content rec = TargetDomain cfg then []
                    else [UpdateCall (findZoneForDomain cfg d) (rec_ID rec)
                            (cname_record cfg d (TargetDomain cfg))])))
   \<and> (mock_wf m \<longrightarrow>
        (let w1 = SyncDomains mockAPI cfg ds (m, []);
             w2 = SyncDomains mockAPI cfg ds (fst w1, []);
             w3 = SyncDomains mockAPI (cfg\<lparr>TargetDomain := t\<rparr>) ds (fst w1, [])
         in fst w2 = fst w1
            \<and> (\<forall>c \<in> set (snd w2). is_list c)
            \<and> (\<forall>x \<in> set ds. handled cfg x \<longrightarrow>
                  (let z = findZoneForDomain cfg x;
                       before = cname_records m z x;
                       first = cname_records (fst w1) z x;
                       changed = cname_records (fst w3) z x
                   in length first = max 1 (length before)
                      \<and> (before = [] \<longrightarrow> length first = 1)
                      \<and> rec_Content (hd first) = TargetDomain cfg
                      \<and> cname_records (fst w2) z x = first
                      \<and> length changed = length first
                      \<and> rec_Content (hd changed) = t
                      \<and> rec_ID (hd changed) = rec_ID (hd first)
                      \<and> tl changed = tl first))))"
proof (intro conjI impI)
  assume "handled cfg d"
  then show "snd (SyncDomains api cfg [d] (s, []))
        = ListCall (findZoneForDomain cfg d) (cname_filter d) #
          (case fst (ListDNSRecords api (findZoneForDomain cfg d) (cname_filter d) s) of
             Inl err \<Rightarrow> []
           | Inr existing \<Rightarrow>
               (case existing of
                  [] \<Rightarrow> [CreateCall (findZoneForDomain cfg d)
                           (cname_record cfg d (TargetDomain cfg))]
                | rec # rest \<Rightarrow>
                    if rec_Content rec = TargetDomain cfg then []
                    else [UpdateCall (findZoneForDomain cfg d) (rec_ID rec)
                            (cname_record cfg d (TargetDomain cfg))]))"
    by (rule SyncDomains_one_calls)
next
  assume wf: "mock_wf m"
  define cfg' where "cfg' = cfg\<lparr>TargetDomain := t\<rparr>"
  define w1 where "w1 = SyncDomains mockAPI cfg ds (m, [])"
  define w2 where "w2 = SyncDomains mockAPI cfg ds (fst w1, [])"
  define w3 where "w3 = SyncDomains mockAPI cfg' ds (fst w1, [])"
  have settled: "mock_wf (fst w1)" "\<forall>x \<in> set ds. in_sync cfg (fst w1) x"
    using SyncDomains_mock_settles [OF wf, of "{}" cfg ds "[]"] by (simp_all add: w1_def)
  have w2: "w2 = (fst w1, map (\<lambda>d. ListCall (findZoneForDomain cfg d) (cname_filter d))
                            (filter (handled cfg) ds))"
    using SyncDomains_mock_in_sync [OF settled, of "[]"] by (simp add: w2_def)
  have lists: "\<forall>c \<in> set (snd w2). is_list c"
    unfolding w2 by auto
  have same: "fst w2 = fst w1"
    unfolding w2 by simp
  have each: "length (cname_records (fst w1) (findZoneForDomain cfg x) x)
                = max 1 (length (cname_records m (findZoneForDomain cfg x) x))
        \<and> (cname_records m (findZoneForDomain cfg x) x = [] \<longrightarrow>
             length (cname_records (fst w1) (findZoneForDomain cfg x) x) = 1)
        \<and> rec_Content (hd (cname_records (fst w1) (findZoneForDomain cfg x) x)) = TargetDomain cfg
        \<and> cname_records (fst w2) (findZoneForDomain cfg x) x
            = cname_records (fst w1) (findZoneForDomain cfg x) x
        \<and> length (cname_records (fst w3) (findZoneForDomain cfg x) x)
            = length (cname_records (fst w1) (findZoneForDomain cfg x) x)
        \<and> rec_Content (hd (cname_records (fst w3) (findZoneForDomain cfg x) x)) = t
        \<and> rec_ID (hd (cname_records (fst w3) (findZoneForDomain cfg x) x))
            = rec_ID (hd (cname_records (fst w1) (findZoneForDomain cfg x) x))
        \<and> tl (cname_records (fst w3) (findZoneForDomain cfg x) x)
            = tl (cname_records (fst w1) (findZoneForDomain cfg x) x)"
    if x: "x \<in> set ds" and h: "handled cfg x" for x
  proof -
    let ?z = "findZoneForDomain cfg x"
    obtain i where first: "cname_records (fst w1) ?z x
        = upserted (cname_records m ?z x) (cname_record cfg x (TargetDomain cfg)) i"
      using SyncDomains_mock_view [OF wf, of x ds cfg ?z "[]"] x h by (auto simp: w1_def)
    have z': "findZoneForDomain cfg' x = ?z" and h': "handled cfg' x"
      using h by (simp_all add: cfg'_def retarget_same_zones)
    obtain j where changed: "cname_records (fst w3) ?z x
        = upserted (cname_records (fst w1) ?z x) (cname_record cfg' x (TargetDomain cfg')) j"
      using SyncDomains_mock_view [OF settled(1), of x ds cfg' ?z "[]"] x h' z'
      by (auto simp: w3_def)
    have c: "rec_Content (cname_record cfg x (TargetDomain cfg)) = TargetDomain cfg"
            "rec_Content (cname_record cfg' x (TargetDomain cfg')) = t"
      by (simp_all add: cname_record_def cfg'_def)
    note p1 = upserted_props [OF first]
    note p3 = upserted_props [OF changed]
    show ?thesis
      using p1(1,2,3) p3(1,3) p3(4) [OF p1(2)] c w2 by auto
  qed
  show "let w1 = SyncDomains mockAPI cfg ds (m, []);
             w2 = SyncDomains mockAPI cfg ds (fst w1, []);
             w3 = SyncDomains mockAPI (cfg\<lparr>TargetDomain := t\<rparr>) ds (fst w1, [])
         in fst w2 = fst w1
            \<and> (\<forall>c \<in> set (snd w2). is_list c)
            \<and> (\<forall>x \<in> set ds. handled cfg x \<longrightarrow>
                  (let z = findZoneForDomain cfg x;
                       before = cname_records m z x;
                       first = cname_records (fst w1) z x;
                       changed = cname_records (fst w3) z x
                   in length first = max 1 (length before)
                      \<and> (before = [] \<longrightarrow> length first = 1)
                      \<and> rec_Content (hd first) = TargetDomain cfg
                      \<and> cname_records (fst w2) z x = first
                      \<and> length changed = length first
                      \<and> rec_Content (hd changed) = t
                      \<and> rec_ID (hd changed) = rec_ID (hd first)
                      \<and> tl changed = tl first))"
    unfolding Let_def w1_def [symmetric] cfg'_def [symmetric] w2_def [symmetric]
              w3_def [symmetric]
    using same lists each by blast
qed

lemma sync_first_run:
  "snd (SyncDomains mockAPI tunnel_cfg [''app.homelab.net''] (newMockCloudflareAPI, []))
     = [ListCall ''zone_1'' (cname_filter ''app.homelab.net''),
        CreateCall ''zone_1''
          (cname_record tunnel_cfg ''app.homelab.net'' ''traefik.homelab.net'')]"
  "records (fst (SyncDomains mockAPI tunnel_cfg [''app.homelab.net'']
                   (newMockCloudflareAPI, []))) ''zone_1''
     = [\<lparr>rec_ID = ''rec_1'', rec_Type = ''CNAME'', rec_Name = ''app.homelab.net'',
         rec_Content = ''traefik.homelab.net'', rec_Proxied = Some False, rec_TTL = 1\<rparr>]"
  "records (fst (SyncDomains mockAPI (tunnel_cfg\<lparr>TargetDomain := ''other.homelab.net''\<rparr>)
                   [''app.homelab.net'']
                   (fst (SyncDomains mockAPI tunnel_cfg [''app.homelab.net'']
                           (newMockCloudflareAPI, [])), []))) ''zone_1''
     = [\<lparr>rec_ID = ''rec_1'', rec_Type = ''CNAME'', rec_Name = ''app.homelab.net'',
         rec_Content = ''other.homelab.net'', rec_Proxied = Some False, rec_TTL = 1\<rparr>]"
  by code_simp+

theorem SyncDomains_idempotent_upsert_witness:
  "mock_wf newMockCloudflareAPI
   \<and> handled tunnel_cfg ''app.homelab.net''
   \<and> findZoneForDomain tunnel_cfg ''app.homelab.net'' = ''zone_1''
   \<and> cname_records newMockCloudflareAPI ''zone_1'' ''app.homelab.net'' = []
   \<and> snd (SyncDomains mockAPI tunnel_cfg [''app.homelab.net''] (newMockCloudflareAPI, []))
      = [ListCall ''zone_1'' (cname_filter ''app.homelab.net''),
         CreateCall ''zone_1''
           (cname_record tunnel_cfg ''app.homelab.net'' ''traefik.homelab.net'')]
   \<and> records (fst (SyncDomains mockAPI tunnel_cfg [''app.homelab.net'']
                     (newMockCloudflareAPI, []))) ''zone_1''
      = [\<lparr>rec_ID = ''rec_1'', rec_Type = ''CNAME'', rec_Name = ''app.homelab.net'',
          rec_Content = ''traefik.homelab.net'', rec_Proxied = Some False, rec_TTL = 1\<rparr>]
   \<and> length (cname_records
               (fst (SyncDomains mockAPI tunnel_cfg [''app.homelab.net'']
                       (newMockCloudflareAPI, []))) ''zone_1'' ''app.homelab.net'') = 1
   \<and> fst (SyncDomains mockAPI tunnel_cfg [''app.homelab.net'']
             (fst (SyncDomains mockAPI tunnel_cfg [''app.homelab.net'']
                     (newMockCloudflareAPI, [])), []))
      = fst (SyncDomains mockAPI tunnel_cfg [''app.homelab.net''] (newMockCloudflareAPI, []))
   \<and> list_all is_list
        (snd (SyncDomains mockAPI tunnel_cfg [''app.homelab.net'']
               (fst (SyncDomains mockAPI tunnel_cfg [''app.homelab.net'']
                       (newMockCloudflareAPI, [])), [])))
   \<and> length (cname_records
               (fst (SyncDomains mockAPI (tunnel_cfg\<lparr>TargetDomain := ''other.homelab.net''\<rparr>)
                       [''app.homelab.net'']
                       (fst (SyncDomains mockAPI tunnel_cfg [''app.homelab.net'']
                               (newMockCloudflareAPI, [])), [])))
               ''zone_1'' ''app.homelab.net'') = 1
   \<and> records (fst (SyncDomains mockAPI (tunnel_cfg\<lparr>TargetDomain := ''other.homelab.net''\<rparr>)
                     [''app.homelab.net'']
                     (fst (SyncDomains mockAPI tunnel_cfg [''app.homelab.net'']
                             (newMockCloudflareAPI, [])), []))) ''zone_1''
      = [\<lparr>rec_ID = ''rec_1'', rec_Type = ''CNAME'', rec_Name = ''app.homelab.net'',
          rec_Content = ''other.homelab.net'', rec_Proxied = Some False, rec_TTL = 1\<rparr>]"
proof -
  have wf: "mock_wf newMockCloudflareAPI"
    by (simp add: mock_wf_def newMockCloudflareAPI_def)
  have z: "findZoneForDomain tunnel_cfg ''app.homelab.net'' = ''zone_1''"
    by (simp add: findZoneForDomain_def tunnel_cfg_def HasSuffix_def)
  have h: "handled tunnel_cfg ''app.homelab.net''"
    using z by (simp add: handled_def) (simp add: tunnel_cfg_def)
  have none: "cname_records newMockCloudflareAPI ''zone_1'' ''app.homelab.net'' = []"
    by (simp add: cname_records_def newMockCloudflareAPI_def)
  note inst = SyncDomains_idempotent_upsert
                [where cfg = tunnel_cfg and m = newMockCloudflareAPI
                   and ds = "[''app.homelab.net'']" and t = "''other.homelab.net''",
                 unfolded Let_def, THEN conjunct2, THEN mp]
  have facts:
    "fst (SyncDomains mockAPI tunnel_cfg [''app.homelab.net'']
             (fst (SyncDomains mockAPI tunnel_cfg [''app.homelab.net'']
                     (newMockCloudflareAPI, [])), []))
      = fst (SyncDomains mockAPI tunnel_cfg [''app.homelab.net''] (newMockCloudflareAPI, []))"
    "\<forall>c \<in> set (snd (SyncDomains mockAPI tunnel_cfg [''app.homelab.net'']
               (fst (SyncDomains mockAPI tunnel_cfg [''app.homelab.net'']
                       (newMockCloudflareAPI, [])), []))). is_list c"
    "length (cname_records
               (fst (SyncDomains mockAPI tunnel_cfg [''app.homelab.net'']
                       (newMockCloudflareAPI, []))) ''zone_1'' ''app.homelab.net'') = 1"
    "length (cname_records
               (fst (SyncDomains mockAPI (tunnel_cfg\<lparr>TargetDomain := ''other.homelab.net''\<rparr>)
                       [''app.homelab.net'']
                       (fst (SyncDomains mockAPI tunnel_cfg [''app.homelab.net'']
                               (newMockCloudflareAPI, [])), [])))
               ''zone_1'' ''app.homelab.net'') = 1"
    using inst [OF wf] h none by (simp_all del: SyncDomains.simps add: z)
  show ?thesis
    using wf h z none facts sync_first_run
    unfolding list_all_iff by (simp del: SyncDomains.simps)
qed

end
